theory Spec2Isabelle
  imports Complex_Main "HOL-Library.Sublist" "HOL-Library.AList"
begin

section \<open>The dashboard's snapshot head: \<open>dashboard/modules/snapshot/snapshot_head.py\<close>\<close>

text \<open>
  The module \<open>APIHead\<close> serves three routes (\<open>/api/actors/kill\<close>, \<open>/api/snapshot\<close>,
  \<open>/api/component_activities\<close>). Every method is embedded as a HOL function of the
  request and of an environment \<open>env\<close> that holds what the method reads from outside the
  module: the replies of the GCS stubs, the internal key-value store, the constants
  imported from other modules and the library functions (\<open>json.loads\<close>,
  \<open>hashlib.sha1\<close>, \<dots>). An exception is a value \<open>Inl e\<close> of the result type; the
  remote calls a method issues are returned beside its result, in the order of issue.
\<close>

subsection \<open>Python values\<close>

text \<open>
  A \<open>bytes\<close> object is a \<open>string\<close>, one \<open>char\<close> per byte. A \<open>str\<close> is a \<open>string\<close>
  too, one \<open>char\<close> per code point: the model covers the strings whose code points are
  below 256. A \<open>dict\<close> is an association list in insertion order whose keys are distinct;
  \<open>d[k] = v\<close> is \<open>AList.update k v d\<close> (the value is replaced in place when the key is
  there, the pair is appended otherwise), and \<open>d.items()\<close> is the list itself.
\<close>

type_synonym str = string
type_synonym bytes = string

datatype error =
    ValueError
  | KeyError str
  | TypeError
  | AttributeError
  | JSONDecodeError
  | UnicodeDecodeError
  | RpcError str

text \<open>What \<open>json.loads\<close> returns; a \<open>float\<close> is only stored and copied here, never computed on.\<close>

datatype json =
    JNone
  | JBool bool
  | JInt int
  | JFloat real
  | JStr str
  | JList "json list"
  | JDict "(str \<times> json) list"

text \<open>\<open>str.isdigit()\<close>: the string is not empty and every character has the Unicode property
  \<open>Numeric_Type=Digit\<close> or \<open>Numeric_Type=Decimal\<close>. Below code point 256 these are the ten
  ASCII digits and the superscripts U+00B2, U+00B3 and U+00B9.\<close>

definition is_decimal_char :: "char \<Rightarrow> bool" where
  "is_decimal_char c = (c \<in> set ''0123456789'')"

definition is_digit_char :: "char \<Rightarrow> bool" where
  "is_digit_char c = (is_decimal_char c \<or> c \<in> set [CHR 0xB2, CHR 0xB3, CHR 0xB9])"

definition isdigit :: "str \<Rightarrow> bool" where
  "isdigit s = (s \<noteq> [] \<and> list_all is_digit_char s)"

text \<open>\<open>int(s)\<close> at a string that passed \<open>isdigit()\<close>, so without sign, blank or underscore:
  the value in base ten when every character is a decimal digit, \<open>ValueError\<close> otherwise
  (a superscript digit is not a decimal digit).\<close>

definition digit_value :: "char \<Rightarrow> nat" where
  "digit_value c = of_char c - 48"

definition int_of_str :: "str \<Rightarrow> error + nat" where
  "int_of_str s =
     (if s \<noteq> [] \<and> list_all is_decimal_char s
      then Inr (foldl (\<lambda>acc c. 10 * acc + digit_value c) 0 s)
      else Inl ValueError)"

text \<open>\<open>str(n)\<close> of a natural number, as the f-string \<open>{num_active_drivers}\<close> formats it.\<close>

fun str_of_nat :: "nat \<Rightarrow> str" where
  "str_of_nat n =
     (if n < 10 then [''0123456789'' ! n]
      else str_of_nat (n div 10) @ [''0123456789'' ! (n mod 10)])"

declare str_of_nat.simps [simp del]

text \<open>\<open>bytes.fromhex(s)\<close> (Python 3.7 and later): two hexadecimal digits per byte, ASCII
  whitespace skipped between bytes; anything else is a \<open>ValueError\<close>, here \<open>None\<close>.\<close>

definition hex_value :: "char \<Rightarrow> nat option" where
  "hex_value c =
     (if c \<in> set ''0123456789'' then Some (of_char c - 48)
      else if c \<in> set ''abcdef'' then Some (of_char c - 87)
      else if c \<in> set ''ABCDEF'' then Some (of_char c - 55)
      else None)"

definition is_space :: "char \<Rightarrow> bool" where
  "is_space c = (c \<in> set [CHR 0x20, CHR 0x09, CHR 0x0A, CHR 0x0B, CHR 0x0C, CHR 0x0D])"

fun fromhex :: "str \<Rightarrow> bytes option" where
  "fromhex [] = Some []"
| "fromhex [c] = (if is_space c then Some [] else None)"
| "fromhex (c # d # s) =
     (if is_space c then fromhex (d # s)
      else case (hex_value c, hex_value d) of
             (Some h, Some l) \<Rightarrow> map_option ((#) (char_of (16 * h + l))) (fromhex s)
           | _ \<Rightarrow> None)"

text \<open>\<open>bytes.hex()\<close>: two lower-case hexadecimal digits per byte.\<close>

definition hex_digit :: "nat \<Rightarrow> char" where
  "hex_digit n = ''0123456789abcdef'' ! (n mod 16)"

definition hex :: "bytes \<Rightarrow> str" where
  "hex b = concat (map (\<lambda>c. [hex_digit (of_char c div 16), hex_digit (of_char c mod 16)]) b)"

subsection \<open>Requests, replies and the environment\<close>

text \<open>\<open>req.query\<close> is a multi-dict: the pairs of the query string in order; \<open>get\<close> returns
  the value of the first pair with the key.\<close>

type_synonym query = "(str \<times> str) list"

definition query_get :: "query \<Rightarrow> str \<Rightarrow> str option" where
  "query_get q k = map_of q k"

record KillActorViaGcsRequest =
  req_actor_id :: bytes
  req_force_kill :: bool
  req_no_restart :: bool

text \<open>The calls a method issues: the remote calls on the GCS stubs, with the request's
  fields and the \<open>timeout\<close> keyword each is given, and the calls of the module's own
  \<open>get_serve_info\<close>.\<close>

datatype rpc =
    KillActorViaGcs KillActorViaGcsRequest nat
  | GetAllJobInfo nat
  | GetAllActorInfo bool nat
  | GetServeInfo

text \<open>The keyword arguments \<open>rest_response\<close> is called with.\<close>

record rest_response =
  success :: bool
  message :: str

record RayActivityResponse =
  is_active :: bool
  reason :: "str option"
  timestamp :: "real option"

record job_config =
  ray_namespace :: str
  config_metadata :: "(str \<times> str) list"
  serialized_runtime_env :: str

record job_table_entry =
  job_id :: bytes
  config :: job_config
  is_dead :: bool
  start_time :: nat
  end_time :: nat

text \<open>A row of \<open>reply.actor_table_data\<close>; \<open>a_worker_id\<close>, \<open>a_raylet_id\<close>,
  \<open>a_ip_address\<close> and \<open>a_port\<close> are the fields of its \<open>address\<close>.\<close>

record actor_table_entry =
  a_actor_id :: bytes
  a_job_id :: bytes
  a_state :: nat
  a_name :: str
  a_ray_namespace :: str
  a_serialized_runtime_env :: str
  a_start_time :: nat
  a_end_time :: nat
  a_is_detached :: bool
  a_required_resources :: "(str \<times> real) list"
  a_class_name :: str
  a_worker_id :: bytes
  a_raylet_id :: bytes
  a_ip_address :: str
  a_port :: nat

text \<open>A \<open>JobInfo\<close> of the job submission store; its fields are only copied.\<close>

record JobInfo =
  ji_status :: json
  ji_message :: json
  ji_error_type :: json
  ji_start_time :: json
  ji_end_time :: json
  ji_metadata :: json
  ji_runtime_env :: json
  ji_entrypoint :: json

datatype kv_namespace = KV_NAMESPACE_SERVE | KV_NAMESPACE_SESSION

text \<open>
  The environment of a request. The constants are those the module imports
  (\<open>serve_constants\<close> is \<open>None\<close> when importing \<open>SERVE_CONTROLLER_NAME\<close> and
  \<open>SNAPSHOT_KEY\<close> raises). The stubs, the key-value store and the job submission
  store answer with an error or a value. The library functions are parameters too:
  \<open>json_loads\<close> and \<open>utf8_decode\<close> are \<open>None\<close> where \<open>json.loads\<close> raises
  \<open>JSONDecodeError\<close> and \<open>bytes.decode\<close> raises \<open>UnicodeDecodeError\<close>;
  \<open>ActorState_Name\<close> is \<open>None\<close> where the enum has no such number (\<open>ValueError\<close>).
  The environment does not change during a request.
\<close>

record env =
  JOB_DATA_KEY_PREFIX :: str
  JOB_ID_METADATA_KEY :: str
  serve_constants :: "(str \<times> str) option"
  ray_version :: str
  ray_commit :: str
  kill_actor_via_gcs :: "KillActorViaGcsRequest \<Rightarrow> nat \<Rightarrow> error option"
  get_all_job_info :: "nat \<Rightarrow> error + job_table_entry list"
  get_all_actor_info :: "bool \<Rightarrow> nat \<Rightarrow> error + actor_table_entry list"
  internal_kv_list :: "str \<Rightarrow> kv_namespace \<Rightarrow> error + bytes list"
  internal_kv_get :: "str \<Rightarrow> kv_namespace \<Rightarrow> error + bytes option"
  job_info_client_get_info :: "str option \<Rightarrow> error + JobInfo option"
  job_info_client_get_all_jobs :: "error + (str \<times> JobInfo option) list"
  json_loads :: "str \<Rightarrow> json option"
  utf8_decode :: "bytes \<Rightarrow> str option"
  sha1_hexdigest :: "bytes \<Rightarrow> str"
  RuntimeEnv_deserialize :: "str \<Rightarrow> error + json"
  ActorState_Name :: "nat \<Rightarrow> str option"
  now_timestamp :: real

subsection \<open>\<open>kill_actor_gcs\<close>\<close>

text \<open>The expression \<open>req.query.get(k, False) in ("true", "True")\<close>.\<close>

definition query_flag :: "query \<Rightarrow> str \<Rightarrow> bool" where
  "query_flag q k =
     (case query_get q k of None \<Rightarrow> False | Some v \<Rightarrow> v \<in> set [''true'', ''True''])"

definition kill_actor_gcs :: "env \<Rightarrow> query \<Rightarrow> (error + rest_response) \<times> rpc list" where
  "kill_actor_gcs E q =
     (let actor_id = query_get q ''actor_id'';
          force_kill = query_flag q ''force_kill'';
          no_restart = query_flag q ''no_restart''
      in if actor_id = None \<or> actor_id = Some []
         then (Inr \<lparr>success = False, message = ''actor_id is required.''\<rparr>, [])
         else (case fromhex (the actor_id) of
                 None \<Rightarrow> (Inl ValueError, [])
               | Some b \<Rightarrow>
                   (let request = \<lparr>req_actor_id = b, req_force_kill = force_kill,
                                   req_no_restart = no_restart\<rparr>;
                        calls = [KillActorViaGcs request 5]
                    in (case kill_actor_via_gcs E request 5 of
                          Some e \<Rightarrow> (Inl e, calls)
                        | None \<Rightarrow>
                            (Inr \<lparr>success = True,
                                  message =
                                    (if force_kill
                                     then ''Force killed actor with id '' @ the actor_id
                                     else ''Requested actor with id '' @ the actor_id
                                          @ '' to terminate. ''
                                          @ ''It will exit once running tasks complete'')\<rparr>,
                             calls)))))"

subsection \<open>\<open>get_component_activities\<close> and \<open>_get_job_activity_info\<close>\<close>

definition is_active_driver :: "env \<Rightarrow> job_table_entry \<Rightarrow> bool" where
  "is_active_driver E j =
     (let is_dead = is_dead j;
          in_internal_namespace = prefix (JOB_DATA_KEY_PREFIX E) (ray_namespace (config j))
      in \<not> is_dead \<and> \<not> in_internal_namespace)"

definition count_active_drivers :: "env \<Rightarrow> job_table_entry list \<Rightarrow> nat" where
  "count_active_drivers E js =
     foldl (\<lambda>num_active_drivers j.
              if is_active_driver E j then num_active_drivers + 1 else num_active_drivers) 0 js"

definition get_job_activity_info :: "env \<Rightarrow> nat \<Rightarrow> (error + RayActivityResponse) \<times> rpc list" where
  "get_job_activity_info E timeout =
     (case get_all_job_info E timeout of
        Inl e \<Rightarrow> (Inl e, [GetAllJobInfo timeout])
      | Inr job_info_list \<Rightarrow>
          let num_active_drivers = count_active_drivers E job_info_list
          in (Inr \<lparr>is_active = num_active_drivers > 0,
                   reason = (if num_active_drivers \<noteq> 0
                             then Some (''Number of active drivers: '' @ str_of_nat num_active_drivers)
                             else None),
                   timestamp = Some (now_timestamp E)\<rparr>,
              [GetAllJobInfo timeout]))"

text \<open>The response of \<open>/api/component_activities\<close>: the dictionary that is serialised into
  the body, with the content type and the status.\<close>

record activity_response =
  driver :: RayActivityResponse
  content_type :: str
  status :: nat

definition request_timeout :: "query \<Rightarrow> error + nat" where
  "request_timeout q =
     (case query_get q ''timeout'' of
        None \<Rightarrow> Inr 5
      | Some t \<Rightarrow> if t \<noteq> [] \<and> isdigit t then int_of_str t else Inr 5)"

definition get_component_activities :: "env \<Rightarrow> query \<Rightarrow> (error + activity_response) \<times> rpc list" where
  "get_component_activities E q =
     (case request_timeout q of
        Inl e \<Rightarrow> (Inl e, [])
      | Inr timeout \<Rightarrow>
          (case get_job_activity_info E timeout of
             (Inl e, calls) \<Rightarrow> (Inl e, calls)
           | (Inr driver_activity_info, calls) \<Rightarrow>
               (Inr \<lparr>driver = driver_activity_info, content_type = ''application/json'',
                     status = 200\<rparr>, calls)))"

subsection \<open>\<open>get_serve_info\<close>\<close>

text \<open>\<open>str(k)\<close> of a \<open>bytes\<close> key is its \<open>repr\<close>: \<open>b'...'\<close>, in double quotes when the
  key holds a single quote and no double quote, with the quote and the backslash escaped,
  tab, newline and carriage return as \<open>\t\<close>, \<open>\n\<close>, \<open>\r\<close> and every other byte
  outside the printable ASCII range as \<open>\xNN\<close>.\<close>

definition repr_byte :: "char \<Rightarrow> char \<Rightarrow> str" where
  "repr_byte quote c =
     (if c = quote \<or> c = CHR 0x5C then [CHR 0x5C, c]
      else if c = CHR 0x09 then [CHR 0x5C, CHR ''t'']
      else if c = CHR 0x0A then [CHR 0x5C, CHR ''n'']
      else if c = CHR 0x0D then [CHR 0x5C, CHR ''r'']
      else if (of_char c :: nat) < 32 \<or> (of_char c :: nat) \<ge> 127
           then [CHR 0x5C, CHR ''x'', hex_digit (of_char c div 16), hex_digit (of_char c mod 16)]
      else [c])"

definition str_of_bytes :: "bytes \<Rightarrow> str" where
  "str_of_bytes k =
     (let quote = (if CHR 0x27 \<in> set k \<and> CHR 0x22 \<notin> set k then CHR 0x22 else CHR 0x27)
      in ''b'' @ [quote] @ concat (map (repr_byte quote) k) @ [quote])"

text \<open>\<open>name.encode()\<close>: UTF-8; a code point below 128 is one byte, one from 128 to 255
  is two bytes.\<close>

definition utf8_encode :: "str \<Rightarrow> bytes" where
  "utf8_encode s =
     concat (map (\<lambda>c. if (of_char c :: nat) < 128 then [c]
                        else [char_of (192 + (of_char c :: nat) div 64),
                              char_of (128 + (of_char c :: nat) mod 64)]) s)"

type_synonym deployments = "(str \<times> json) list"

text \<open>The body of the loop over \<open>serve_snapshot_keys\<close>: the value of one key, decoded.\<close>

definition load_value :: "env \<Rightarrow> bytes \<Rightarrow> error + json" where
  "load_value E key =
     (case internal_kv_get E key KV_NAMESPACE_SERVE of
        Inl e \<Rightarrow> Inl e
      | Inr v \<Rightarrow>
          (let val_bytes = (if v = None \<or> v = Some [] then ''{}'' else the v)
           in (case utf8_decode E val_bytes of
                 None \<Rightarrow> Inl UnicodeDecodeError
               | Some text \<Rightarrow>
                   (case json_loads E text of
                      None \<Rightarrow> Inl JSONDecodeError
                    | Some d \<Rightarrow> Inr d))))"

fun load_values :: "env \<Rightarrow> bytes list \<Rightarrow> error + json list" where
  "load_values E [] = Inr []"
| "load_values E (key # keys) =
     (case load_value E key of
        Inl e \<Rightarrow> Inl e
      | Inr d \<Rightarrow>
          (case load_values E keys of
             Inl e \<Rightarrow> Inl e
           | Inr ds \<Rightarrow> Inr (d # ds)))"

text \<open>The comprehension \<open>{k: v for d in deployments_per_controller for k, v in d.items()}\<close>,
  run on the dictionary built so far; \<open>d.items()\<close> raises \<open>AttributeError\<close> when \<open>d\<close> is
  not a dictionary.\<close>

fun merge_deployments :: "json list \<Rightarrow> deployments \<Rightarrow> error + deployments" where
  "merge_deployments [] acc = Inr acc"
| "merge_deployments (JDict d # ds) acc =
     merge_deployments ds (fold (\<lambda>(k, v). AList.update k v) d acc)"
| "merge_deployments (_ # ds) acc = Inl AttributeError"

text \<open>The comprehension that replaces every name by the digest of its encoding.\<close>

definition hash_names :: "env \<Rightarrow> deployments \<Rightarrow> deployments" where
  "hash_names E deployments =
     fold (\<lambda>(name, info). AList.update (sha1_hexdigest E (utf8_encode name)) info) deployments []"

definition get_deployments :: "env \<Rightarrow> str \<Rightarrow> str \<Rightarrow> error + deployments" where
  "get_deployments E SERVE_CONTROLLER_NAME SERVE_SNAPSHOT_KEY =
     (case internal_kv_list E SERVE_CONTROLLER_NAME KV_NAMESPACE_SERVE of
        Inl e \<Rightarrow> Inl e
      | Inr serve_keys \<Rightarrow>
          (let serve_snapshot_keys =
                 filter (\<lambda>k. sublist SERVE_SNAPSHOT_KEY (str_of_bytes k)) serve_keys
           in (case load_values E serve_snapshot_keys of
                 Inl e \<Rightarrow> Inl e
               | Inr deployments_per_controller \<Rightarrow>
                   (case merge_deployments deployments_per_controller [] of
                      Inl e \<Rightarrow> Inl e
                    | Inr deployments \<Rightarrow> Inr (hash_names E deployments)))))"

definition get_serve_info :: "env \<Rightarrow> error + deployments" where
  "get_serve_info E =
     (case serve_constants E of
        None \<Rightarrow> Inr []
      | Some (SERVE_CONTROLLER_NAME, SERVE_SNAPSHOT_KEY) \<Rightarrow>
          get_deployments E SERVE_CONTROLLER_NAME SERVE_SNAPSHOT_KEY)"

subsection \<open>\<open>get_actor_info\<close>\<close>

text \<open>An entry of the \<open>actors\<close> dictionary; the field \<open>e_x\<close> is the key \<open>"x"\<close>.\<close>

record actor_entry =
  e_job_id :: str
  e_state :: str
  e_name :: str
  e_namespace :: str
  e_runtime_env :: json
  e_start_time :: nat
  e_end_time :: nat
  e_is_detached :: bool
  e_resources :: "(str \<times> real) list"
  e_actor_class :: str
  e_current_worker_id :: str
  e_current_raylet_id :: str
  e_ip_address :: str
  e_port :: nat
  metadata :: "(str \<times> json) list"

type_synonym actors = "(str \<times> actor_entry) list"

text \<open>\<open>x[k]\<close> with a string \<open>k\<close>: \<open>KeyError\<close> at a dictionary without the key,
  \<open>TypeError\<close> at a value that is not a dictionary. \<open>x.items()\<close>: \<open>AttributeError\<close> at
  a value that is not a dictionary.\<close>

fun subscript :: "json \<Rightarrow> str \<Rightarrow> error + json" where
  "subscript (JDict d) k = (case map_of d k of None \<Rightarrow> Inl (KeyError k) | Some v \<Rightarrow> Inr v)"
| "subscript _ k = Inl TypeError"

fun items :: "json \<Rightarrow> error + (str \<times> json) list" where
  "items (JDict d) = Inr d"
| "items _ = Inl AttributeError"

text \<open>The entry built from a row of the actor table.\<close>

definition actor_entry_of :: "env \<Rightarrow> actor_table_entry \<Rightarrow> error + actor_entry" where
  "actor_entry_of E row =
     (case json_loads E (a_serialized_runtime_env row) of
        None \<Rightarrow> Inl JSONDecodeError
      | Some runtime_env \<Rightarrow>
          (case ActorState_Name E (a_state row) of
             None \<Rightarrow> Inl ValueError
           | Some state_name \<Rightarrow>
               Inr \<lparr>e_job_id = hex (a_job_id row),
                    e_state = state_name,
                    e_name = a_name row,
                    e_namespace = a_ray_namespace row,
                    e_runtime_env = runtime_env,
                    e_start_time = a_start_time row,
                    e_end_time = a_end_time row,
                    e_is_detached = a_is_detached row,
                    e_resources = a_required_resources row,
                    e_actor_class = a_class_name row,
                    e_current_worker_id = hex (a_worker_id row),
                    e_current_raylet_id = hex (a_raylet_id row),
                    e_ip_address = a_ip_address row,
                    e_port = a_port row,
                    metadata = []\<rparr>))"

text \<open>The three assignments that fill \<open>serve_metadata\<close>, in the order of the source.\<close>

definition serve_metadata :: "json \<Rightarrow> json \<Rightarrow> error + json" where
  "serve_metadata deployment_info actor_info =
     (case subscript actor_info ''replica_tag'' of
        Inl e \<Rightarrow> Inl e
      | Inr replica_tag \<Rightarrow>
          (case subscript deployment_info ''name'' of
             Inl e \<Rightarrow> Inl e
           | Inr deployment_name \<Rightarrow>
               (case subscript actor_info ''version'' of
                  Inl e \<Rightarrow> Inl e
                | Inr version \<Rightarrow>
                    Inr (JDict [(''replica_tag'', replica_tag),
                                (''deployment_name'', deployment_name),
                                (''version'', version)]))))"

text \<open>\<open>actors[replica_actor_id]["metadata"]["serve"] = serve_metadata\<close>.\<close>

definition set_serve :: "str \<Rightarrow> json \<Rightarrow> actors \<Rightarrow> actors" where
  "set_serve replica_actor_id m actors =
     AList.map_entry replica_actor_id
       (\<lambda>entry. entry\<lparr>metadata := AList.update ''serve'' m (metadata entry)\<rparr>) actors"

text \<open>The inner loop, over the replicas of one deployment.\<close>

fun join_replicas :: "json \<Rightarrow> (str \<times> json) list \<Rightarrow> actors \<Rightarrow> error + actors" where
  "join_replicas deployment_info [] actors = Inr actors"
| "join_replicas deployment_info ((replica_actor_id, actor_info) # rest) actors =
     (if replica_actor_id \<in> fst ` set actors
      then (case serve_metadata deployment_info actor_info of
              Inl e \<Rightarrow> Inl e
            | Inr m \<Rightarrow> join_replicas deployment_info rest (set_serve replica_actor_id m actors))
      else join_replicas deployment_info rest actors)"

text \<open>The outer loop, over the deployments.\<close>

fun join_deployments :: "deployments \<Rightarrow> actors \<Rightarrow> error + actors" where
  "join_deployments [] actors = Inr actors"
| "join_deployments ((uu, deployment_info) # rest) actors =
     (case subscript deployment_info ''actors'' of
        Inl e \<Rightarrow> Inl e
      | Inr replicas \<Rightarrow>
          (case items replicas of
             Inl e \<Rightarrow> Inl e
           | Inr replica_items \<Rightarrow>
               (case join_replicas deployment_info replica_items actors of
                  Inl e \<Rightarrow> Inl e
                | Inr actors' \<Rightarrow> join_deployments rest actors')))"

text \<open>The join as a step on the pair of the two dictionaries it works on: lines 238 to 245.\<close>

definition join :: "actors \<times> deployments \<Rightarrow> error + actors \<times> deployments" where
  "join s =
     (case join_deployments (snd s) (fst s) of
        Inl e \<Rightarrow> Inl e
      | Inr actors' \<Rightarrow> Inr (actors', snd s))"

text \<open>The loop over \<open>reply.actor_table_data\<close>. Its body stores the entry of the row and, in
  the same iteration, calls \<open>get_serve_info\<close> and joins its result with the entries stored
  so far.\<close>

fun actor_loop :: "env \<Rightarrow> actor_table_entry list \<Rightarrow> actors \<Rightarrow> (error + actors) \<times> rpc list" where
  "actor_loop E [] actors = (Inr actors, [])"
| "actor_loop E (row # rows) actors =
     (case actor_entry_of E row of
        Inl e \<Rightarrow> (Inl e, [])
      | Inr entry \<Rightarrow>
          (let actors1 = AList.update (hex (a_actor_id row)) entry actors
           in (case get_serve_info E of
                 Inl e \<Rightarrow> (Inl e, [GetServeInfo])
               | Inr deployments \<Rightarrow>
                   (case join (actors1, deployments) of
                      Inl e \<Rightarrow> (Inl e, [GetServeInfo])
                    | Inr (actors2, uu) \<Rightarrow>
                        (case actor_loop E rows actors2 of
                           (r, calls) \<Rightarrow> (r, GetServeInfo # calls))))))"

definition get_actor_info :: "env \<Rightarrow> (error + actors) \<times> rpc list" where
  "get_actor_info E =
     (case get_all_actor_info E True 5 of
        Inl e \<Rightarrow> (Inl e, [GetAllActorInfo True 5])
      | Inr actor_table_data \<Rightarrow>
          (case actor_loop E actor_table_data [] of
             (r, calls) \<Rightarrow> (r, GetAllActorInfo True 5 # calls)))"

subsection \<open>\<open>get_job_info\<close>, \<open>get_job_submission_info\<close> and \<open>get_session_name\<close>\<close>

record job_entry_config =
  c_namespace :: str
  c_metadata :: "(str \<times> str) list"
  c_runtime_env :: json

record job_entry =
  j_status :: json
  j_status_message :: json
  j_is_dead :: bool
  j_start_time :: nat
  j_end_time :: nat
  j_config :: job_entry_config

definition get_job_info_of_metadata :: "env \<Rightarrow> (str \<times> str) list \<Rightarrow> error + JobInfo option" where
  "get_job_info_of_metadata E job_metadata =
     (let job_submission_id = map_of job_metadata (JOB_ID_METADATA_KEY E)
      in job_info_client_get_info E job_submission_id)"

definition job_entry_of :: "env \<Rightarrow> job_table_entry \<Rightarrow> error + job_entry" where
  "job_entry_of E job_table_entry =
     (let job_metadata = config_metadata (config job_table_entry)
      in (case RuntimeEnv_deserialize E (serialized_runtime_env (config job_table_entry)) of
            Inl e \<Rightarrow> Inl e
          | Inr runtime_env \<Rightarrow>
              (case get_job_info_of_metadata E job_metadata of
                 Inl e \<Rightarrow> Inl e
               | Inr info \<Rightarrow>
                   Inr \<lparr>j_status = (case info of None \<Rightarrow> JNone | Some i \<Rightarrow> ji_status i),
                        j_status_message = (case info of None \<Rightarrow> JNone | Some i \<Rightarrow> ji_message i),
                        j_is_dead = is_dead job_table_entry,
                        j_start_time = start_time job_table_entry,
                        j_end_time = end_time job_table_entry,
                        j_config = \<lparr>c_namespace = ray_namespace (config job_table_entry),
                                     c_metadata = job_metadata,
                                     c_runtime_env = runtime_env\<rparr>\<rparr>)))"

fun job_loop :: "env \<Rightarrow> job_table_entry list \<Rightarrow> (str \<times> job_entry) list
    \<Rightarrow> error + (str \<times> job_entry) list" where
  "job_loop E [] jobs = Inr jobs"
| "job_loop E (job_table_entry # rest) jobs =
     (case job_entry_of E job_table_entry of
        Inl e \<Rightarrow> Inl e
      | Inr entry \<Rightarrow> job_loop E rest (AList.update (hex (job_id job_table_entry)) entry jobs))"

definition get_job_info :: "env \<Rightarrow> error + (str \<times> job_entry) list" where
  "get_job_info E =
     (case get_all_job_info E 5 of
        Inl e \<Rightarrow> Inl e
      | Inr job_info_list \<Rightarrow> job_loop E job_info_list [])"

record job_submission_entry =
  s_job_submission_id :: str
  s_status :: json
  s_message :: json
  s_error_type :: json
  s_start_time :: json
  s_end_time :: json
  s_metadata :: json
  s_runtime_env :: json
  s_entrypoint :: json

definition job_submission_entry_of :: "str \<Rightarrow> JobInfo \<Rightarrow> job_submission_entry" where
  "job_submission_entry_of job_submission_id job_info =
     \<lparr>s_job_submission_id = job_submission_id,
      s_status = ji_status job_info,
      s_message = ji_message job_info,
      s_error_type = ji_error_type job_info,
      s_start_time = ji_start_time job_info,
      s_end_time = ji_end_time job_info,
      s_metadata = ji_metadata job_info,
      s_runtime_env = ji_runtime_env job_info,
      s_entrypoint = ji_entrypoint job_info\<rparr>"

definition get_job_submission_info :: "env \<Rightarrow> error + (str \<times> job_submission_entry) list" where
  "get_job_submission_info E =
     (case job_info_client_get_all_jobs E of
        Inl e \<Rightarrow> Inl e
      | Inr all_jobs \<Rightarrow>
          Inr (fold (\<lambda>(job_submission_id, job_info) jobs.
                       case job_info of
                         None \<Rightarrow> jobs
                       | Some i \<Rightarrow>
                           AList.update job_submission_id
                             (job_submission_entry_of job_submission_id i) jobs)
                 all_jobs []))"

text \<open>\<open>_internal_kv_get("session_name", ...).decode()\<close>: \<open>None\<close> has no \<open>decode\<close>.\<close>

definition get_session_name :: "env \<Rightarrow> error + str" where
  "get_session_name E =
     (case internal_kv_get E ''session_name'' KV_NAMESPACE_SESSION of
        Inl e \<Rightarrow> Inl e
      | Inr None \<Rightarrow> Inl AttributeError
      | Inr (Some b) \<Rightarrow>
          (case utf8_decode E b of None \<Rightarrow> Inl UnicodeDecodeError | Some name \<Rightarrow> Inr name))"

subsection \<open>\<open>snapshot\<close>\<close>

record snapshot_payload =
  p_jobs :: "(str \<times> job_entry) list"
  p_job_submission :: "(str \<times> job_submission_entry) list"
  p_actors :: actors
  p_deployments :: deployments
  p_session_name :: str
  p_ray_version :: str
  p_ray_commit :: str

record snapshot_response = rest_response +
  snapshot_of :: snapshot_payload

text \<open>
  \<open>asyncio.gather\<close> runs the five coroutines concurrently and, called without
  \<open>return_exceptions\<close>, raises the first exception that one of them raises; which one is
  first depends on the schedule. So \<open>snapshot\<close> gives the outcomes of the request over
  all schedules: the response when the five coroutines return, and otherwise the
  exception of each coroutine that raises. \<open>raised\<close> lists these exceptions, in the order
  of the arguments of \<open>gather\<close>.
\<close>

definition failure :: "error + 'a \<Rightarrow> error list" where
  "failure r = (case r of Inl e \<Rightarrow> [e] | Inr v \<Rightarrow> [])"

definition raised :: "env \<Rightarrow> error list" where
  "raised E =
     failure (get_job_info E) @ failure (get_job_submission_info E)
     @ failure (fst (get_actor_info E)) @ failure (get_serve_info E)
     @ failure (get_session_name E)"

definition snapshot :: "env \<Rightarrow> (error + snapshot_response) list" where
  "snapshot E =
     (case (get_job_info E, get_job_submission_info E, fst (get_actor_info E),
            get_serve_info E, get_session_name E) of
        (Inr job_info, Inr job_submission_data, Inr actor_data, Inr serve_data,
         Inr session_name) \<Rightarrow>
          [Inr \<lparr>success = True, message = ''hello'',
                snapshot_of = \<lparr>p_jobs = job_info,
                               p_job_submission = job_submission_data,
                               p_actors = actor_data,
                               p_deployments = serve_data,
                               p_session_name = session_name,
                               p_ray_version = ray_version E,
                               p_ray_commit = ray_commit E\<rparr>\<rparr>]
      | _ \<Rightarrow> map Inl (raised E))"

subsection \<open>A concrete environment\<close>

text \<open>
  The evaluations below need values for the parameters of the environment.
  \<open>json_loads_fragment\<close> is \<open>json.loads\<close> on a fragment of JSON: objects and strings
  without escapes, with blanks between the tokens. It is \<open>None\<close> on every other text,
  so it stands for \<open>json.loads\<close> only at the texts of the fragment and at texts that are
  not JSON. The natural number bounds the depth of the recursion.
\<close>

definition skip_ws :: "str \<Rightarrow> str" where
  "skip_ws s = dropWhile (\<lambda>c. c \<in> set [CHR 0x20, CHR 0x09, CHR 0x0A, CHR 0x0D]) s"

fun scan_string :: "str \<Rightarrow> (str \<times> str) option" where
  "scan_string [] = None"
| "scan_string (c # s) =
     (if c = CHR 0x22 then Some ([], s)
      else if c = CHR 0x5C \<or> (of_char c :: nat) < 32 then None
      else map_option (\<lambda>(t, r). (c # t, r)) (scan_string s))"

fun parse_value :: "nat \<Rightarrow> str \<Rightarrow> (json \<times> str) option"
  and parse_members :: "nat \<Rightarrow> str \<Rightarrow> ((str \<times> json) list \<times> str) option" where
  "parse_value 0 s = None"
| "parse_value (Suc n) s =
     (case skip_ws s of
        [] \<Rightarrow> None
      | c # r \<Rightarrow>
          if c = CHR 0x22 then map_option (\<lambda>(t, r'). (JStr t, r')) (scan_string r)
          else if c = CHR 0x7B
          then (case skip_ws r of
                  [] \<Rightarrow> None
                | c' # r' \<Rightarrow>
                    if c' = CHR 0x7D then Some (JDict [], r')
                    else map_option
                           (\<lambda>(m, r''). (JDict (fold (\<lambda>(k, v). AList.update k v) m []), r''))
                           (parse_members n r))
          else None)"
| "parse_members 0 s = None"
| "parse_members (Suc n) s =
     (case skip_ws s of
        [] \<Rightarrow> None
      | c # r \<Rightarrow>
          if c \<noteq> CHR 0x22 then None
          else (case scan_string r of
                  None \<Rightarrow> None
                | Some (k, r1) \<Rightarrow>
                    (case skip_ws r1 of
                       [] \<Rightarrow> None
                     | c1 # r2 \<Rightarrow>
                         if c1 \<noteq> CHR 0x3A then None
                         else (case parse_value n r2 of
                                 None \<Rightarrow> None
                               | Some (v, r3) \<Rightarrow>
                                   (case skip_ws r3 of
                                      [] \<Rightarrow> None
                                    | c3 # r4 \<Rightarrow>
                                        if c3 = CHR 0x2C
                                        then map_option (\<lambda>(m, r5). ((k, v) # m, r5))
                                               (parse_members n r4)
                                        else if c3 = CHR 0x7D then Some ([(k, v)], r4)
                                        else None)))))"

definition json_loads_fragment :: "str \<Rightarrow> json option" where
  "json_loads_fragment s =
     (case parse_value (Suc (length s)) s of
        None \<Rightarrow> None
      | Some (v, r) \<Rightarrow> if skip_ws r = [] then Some v else None)"

text \<open>\<open>bytes.decode("utf-8")\<close> at ASCII bytes, where it changes nothing; \<open>None\<close> elsewhere.\<close>

definition utf8_decode_ascii :: "bytes \<Rightarrow> str option" where
  "utf8_decode_ascii b = (if list_all (\<lambda>c. (of_char c :: nat) < 128) b then Some b else None)"

text \<open>The SHA-1 digests of the two names the evaluations use.\<close>

definition sha1_hexdigest_table :: "bytes \<Rightarrow> str" where
  "sha1_hexdigest_table b =
     (if b = ''svc'' then ''a0089182becd921781d5ba1e58fa4d129b24060f''
      else if b = ''app'' then ''7d1043473d55bfa90e8530d35801d4e381bc69f0''
      else [])"

text \<open>The names of the enum \<open>ActorTableData.ActorState\<close>.\<close>

definition actor_state_name :: "nat \<Rightarrow> str option" where
  "actor_state_name n =
     (if n < 5
      then Some ([''DEPENDENCIES_UNREADY'', ''PENDING_CREATION'', ''ALIVE'', ''RESTARTING'',
                  ''DEAD''] ! n)
      else None)"

text \<open>An environment over a key-value store given by the pairs of its \<open>serve\<close> namespace,
  in scan order: no jobs, no actors, no job submissions.\<close>

definition env_of_store :: "(bytes \<times> bytes) list \<Rightarrow> env" where
  "env_of_store store =
     \<lparr>JOB_DATA_KEY_PREFIX = ''_ray_internal_job_info_'',
      JOB_ID_METADATA_KEY = ''job_submission_id'',
      serve_constants = Some (''SERVE_CONTROLLER_ACTOR'', ''serve-deployments-snapshot''),
      ray_version = ''2.0.0'',
      ray_commit = ''0000000'',
      kill_actor_via_gcs = (\<lambda>request timeout. None),
      get_all_job_info = (\<lambda>timeout. Inr []),
      get_all_actor_info = (\<lambda>show_dead_jobs timeout. Inr []),
      internal_kv_list =
        (\<lambda>p ns. if ns = KV_NAMESPACE_SERVE
                then Inr (filter (prefix p) (map fst store)) else Inr []),
      internal_kv_get =
        (\<lambda>k ns. if ns = KV_NAMESPACE_SERVE then Inr (map_of store k)
                else Inr (map_of [(''session_name'', ''session_1'')] k)),
      job_info_client_get_info = (\<lambda>job_submission_id. Inr None),
      job_info_client_get_all_jobs = Inr [],
      json_loads = json_loads_fragment,
      utf8_decode = utf8_decode_ascii,
      sha1_hexdigest = sha1_hexdigest_table,
      RuntimeEnv_deserialize =
        (\<lambda>s. case json_loads_fragment s of None \<Rightarrow> Inl JSONDecodeError | Some v \<Rightarrow> Inr v),
      ActorState_Name = actor_state_name,
      now_timestamp = 0\<rparr>"

text \<open>The three jobs of the specification's example: a dead one and a live one of a user,
  and a live one in the internal namespace.\<close>

definition job_of :: "bool \<Rightarrow> str \<Rightarrow> job_table_entry" where
  "job_of dead ns =
     \<lparr>job_id = [], config = \<lparr>ray_namespace = ns, config_metadata = [], serialized_runtime_env = ''{}''\<rparr>,
      is_dead = dead, start_time = 0, end_time = 0\<rparr>"

definition three_jobs :: "job_table_entry list" where
  "three_jobs = [job_of True ''user'', job_of False ''user'', job_of False ''_ray_internal_job_info_x'']"

text \<open>Stores for the evaluations of the deployment snapshot resolver: two controllers that
  define the deployment \<open>svc\<close> differently, with a key of another kind between them;
  a snapshot key with a value that is not JSON; a snapshot key with an empty value.\<close>

definition two_controllers :: "(bytes \<times> bytes) list" where
  "two_controllers =
     [(''SERVE_CONTROLLER_ACTOR:aaaaaa:serve-deployments-snapshot'',
       ''{\"svc\": {\"name\": \"svc\", \"version\": \"1\"}}''),
      (''SERVE_CONTROLLER_ACTOR:aaaaaa:serve-checkpoint'', ''not json''),
      (''SERVE_CONTROLLER_ACTOR:bbbbbb:serve-deployments-snapshot'',
       ''{\"svc\": {\"name\": \"svc\", \"version\": \"2\"}, \"app\": {\"name\": \"app\"}}'')]"

definition malformed_store :: "(bytes \<times> bytes) list" where
  "malformed_store = [(''SERVE_CONTROLLER_ACTOR:serve-deployments-snapshot'', ''not json'')]"

definition empty_value_store :: "(bytes \<times> bytes) list" where
  "empty_value_store = [(''SERVE_CONTROLLER_ACTOR:serve-deployments-snapshot'', [])]"

definition two_dicts :: "bytes \<Rightarrow> (str \<times> json) list" where
  "two_dicts k =
     (if k = ''SERVE_CONTROLLER_ACTOR:aaaaaa:serve-deployments-snapshot''
      then [(''svc'', JDict [(''name'', JStr ''svc''), (''version'', JStr ''1'')])]
      else [(''svc'', JDict [(''name'', JStr ''svc''), (''version'', JStr ''2'')]),
            (''app'', JDict [(''name'', JStr ''app'')])])"

subsection \<open>What the join attaches, and the actor map before the join\<close>

text \<open>
  The properties of the join are stated with three functions that are not in the source.
  \<open>attach f actors\<close> is the actor map in which every actor \<open>a\<close> with \<open>f a = Some m\<close> has
  \<open>m\<close> under the key \<open>serve\<close> of its metadata, everything else as in \<open>actors\<close>.
  \<open>serve_of deployments\<close> maps a replica actor id to the serve metadata of the last
  deployment, in the order of the dictionary, that lists the id. \<open>raw_actors\<close> is the
  loop of \<open>get_actor_info\<close> without the join: the actor map as fetched.
\<close>

definition attach :: "(str \<Rightarrow> json option) \<Rightarrow> actors \<Rightarrow> actors" where
  "attach f actors =
     map (\<lambda>(actor_id, entry).
            (actor_id,
             case f actor_id of
               None \<Rightarrow> entry
             | Some m \<Rightarrow> entry\<lparr>metadata := AList.update ''serve'' m (metadata entry)\<rparr>))
       actors"

definition replicas_of :: "json \<Rightarrow> (str \<times> json) list" where
  "replicas_of deployment_info =
     (case subscript deployment_info ''actors'' of
        Inl e \<Rightarrow> []
      | Inr replicas \<Rightarrow> (case items replicas of Inl e \<Rightarrow> [] | Inr replica_items \<Rightarrow> replica_items))"

definition serve_of_replicas :: "json \<Rightarrow> (str \<times> json) list \<Rightarrow> str \<Rightarrow> json option" where
  "serve_of_replicas deployment_info replica_items actor_id =
     (case map_of (rev replica_items) actor_id of
        None \<Rightarrow> None
      | Some actor_info \<Rightarrow>
          (case serve_metadata deployment_info actor_info of
             Inl e \<Rightarrow> None
           | Inr m \<Rightarrow> Some m))"

fun serve_of :: "deployments \<Rightarrow> str \<Rightarrow> json option" where
  "serve_of [] actor_id = None"
| "serve_of ((uu, deployment_info) # rest) actor_id =
     (case serve_of rest actor_id of
        Some m \<Rightarrow> Some m
      | None \<Rightarrow> serve_of_replicas deployment_info (replicas_of deployment_info) actor_id)"

definition referenced :: "deployments \<Rightarrow> str set" where
  "referenced deployments = (\<Union>(uu, deployment_info) \<in> set deployments.
                               fst ` set (replicas_of deployment_info))"

fun raw_actors :: "env \<Rightarrow> actor_table_entry list \<Rightarrow> actors \<Rightarrow> error + actors" where
  "raw_actors E [] actors = Inr actors"
| "raw_actors E (row # rows) actors =
     (case actor_entry_of E row of
        Inl e \<Rightarrow> Inl e
      | Inr entry \<Rightarrow> raw_actors E rows (AList.update (hex (a_actor_id row)) entry actors))"

text \<open>Data for the evaluations of \<open>get_actor_info\<close>: two rows of the actor table, with the
  ids \<open>a1\<close> and \<open>b2\<close> (in hexadecimal \<open>6131\<close> and \<open>6232\<close>); a deployment snapshot whose
  deployment \<open>svc\<close> lists the actor \<open>6131\<close> and an actor that is not in the table; the
  snapshot of the specification's example, which has no \<open>name\<close>; and the values the
  evaluations return.\<close>

definition actor_row :: "bytes \<Rightarrow> actor_table_entry" where
  "actor_row i =
     \<lparr>a_actor_id = i, a_job_id = ''j'', a_state = 2, a_name = ''replica'',
      a_ray_namespace = ''serve'', a_serialized_runtime_env = ''{}'', a_start_time = 1,
      a_end_time = 0, a_is_detached = True, a_required_resources = [],
      a_class_name = ''Replica'', a_worker_id = ''w'', a_raylet_id = ''r'',
      a_ip_address = ''10.0.0.1'', a_port = 8000\<rparr>"

definition svc_store :: "(bytes \<times> bytes) list" where
  "svc_store =
     [(''SERVE_CONTROLLER_ACTOR:serve-deployments-snapshot'',
       ''{\"svc\": {\"name\": \"svc\", \"actors\": {\"6131\": {\"replica_tag\": \"t\", \"version\": \"v\"}, \"dead\": {\"replica_tag\": \"u\", \"version\": \"v\"}}}}'')]"

definition svc_env :: env where
  "svc_env = (env_of_store svc_store)
     \<lparr>get_all_actor_info := \<lambda>show_dead_jobs timeout. Inr [actor_row ''a1'', actor_row ''b2'']\<rparr>"

definition unnamed_store :: "(bytes \<times> bytes) list" where
  "unnamed_store =
     [(''SERVE_CONTROLLER_ACTOR:serve-deployments-snapshot'',
       ''{\"svc\": {\"actors\": {\"6131\": {\"replica_tag\": \"t\", \"version\": \"v\"}}}}'')]"

definition svc_deployments :: deployments where
  "svc_deployments =
     [(''a0089182becd921781d5ba1e58fa4d129b24060f'',
       JDict [(''name'', JStr ''svc''),
              (''actors'',
               JDict [(''6131'', JDict [(''replica_tag'', JStr ''t''), (''version'', JStr ''v'')]),
                      (''dead'', JDict [(''replica_tag'', JStr ''u''), (''version'', JStr ''v'')])])])]"

definition raw_entry :: actor_entry where
  "raw_entry =
     \<lparr>e_job_id = ''6a'', e_state = ''ALIVE'', e_name = ''replica'', e_namespace = ''serve'',
      e_runtime_env = JDict [], e_start_time = 1, e_end_time = 0, e_is_detached = True,
      e_resources = [], e_actor_class = ''Replica'', e_current_worker_id = ''77'',
      e_current_raylet_id = ''72'', e_ip_address = ''10.0.0.1'', e_port = 8000,
      metadata = []\<rparr>"

definition svc_serve :: json where
  "svc_serve = JDict [(''replica_tag'', JStr ''t''), (''deployment_name'', JStr ''svc''),
                      (''version'', JStr ''v'')]"

definition svc_joined :: actors where
  "svc_joined = [(''6131'', raw_entry\<lparr>metadata := [(''serve'', svc_serve)]\<rparr>), (''6232'', raw_entry)]"

text \<open>An environment whose key-value store has no \<open>session_name\<close>.\<close>

definition no_session_env :: env where
  "no_session_env = (env_of_store [])\<lparr>internal_kv_get := \<lambda>k ns. Inr None\<rparr>"

section \<open>Properties\<close>

subsection \<open>The activity classifier\<close>

text \<open>\<open>str_of_nat\<close> writes the number in decimal digits: \<open>int\<close> reads it back.\<close>

lemma decimal_digit_nth:
  assumes "d < 10"
  shows "is_decimal_char (''0123456789'' ! d) \<and> digit_value (''0123456789'' ! d) = d"
proof -
  from assms have "d \<in> {0, 1, 2, 3, 4, 5, 6, 7, 8, 9}" by auto
  then show ?thesis
    by (auto simp: is_decimal_char_def digit_value_def)
qed

lemma str_of_nat_decimal:
  "str_of_nat n \<noteq> [] \<and> list_all is_decimal_char (str_of_nat n)
   \<and> foldl (\<lambda>acc c. 10 * acc + digit_value c) 0 (str_of_nat n) = n"
proof (induction n rule: str_of_nat.induct)
  case (1 n)
  show ?case
  proof (cases "n < 10")
    case True
    then have eq: "str_of_nat n = [''0123456789'' ! n]"
      by (subst str_of_nat.simps) simp
    from decimal_digit_nth [OF True] show ?thesis unfolding eq by simp
  next
    case False
    then have ih: "str_of_nat (n div 10) \<noteq> [] \<and> list_all is_decimal_char (str_of_nat (n div 10))
      \<and> foldl (\<lambda>acc c. 10 * acc + digit_value c) 0 (str_of_nat (n div 10)) = n div 10"
      using 1 by simp
    have eq: "str_of_nat n = str_of_nat (n div 10) @ [''0123456789'' ! (n mod 10)]"
      using False by (subst str_of_nat.simps) simp
    have "n mod 10 < 10" by simp
    from decimal_digit_nth [OF this] ih show ?thesis
      unfolding eq by simp
  qed
qed

lemma int_of_str_of_nat: "int_of_str (str_of_nat n) = Inr n"
  using str_of_nat_decimal [of n] by (simp add: int_of_str_def)

lemma count_active_drivers_filter:
  "count_active_drivers E js = length (filter (is_active_driver E) js)"
proof -
  have "foldl (\<lambda>n j. if is_active_driver E j then n + 1 else n) k js
        = k + length (filter (is_active_driver E) js)" for k
    by (induction js arbitrary: k) auto
  then show ?thesis by (simp add: count_active_drivers_def)
qed

lemma is_active_driver_iff:
  "is_active_driver E j \<longleftrightarrow>
     \<not> is_dead j \<and> \<not> prefix (JOB_DATA_KEY_PREFIX E) (ray_namespace (config j))"
  by (simp add: is_active_driver_def Let_def)

text \<open>
  C4. When the job fetch returns the job records \<open>J\<close>, \<open>_get_job_activity_info\<close> returns
  \<open>is_active = False\<close> and \<open>reason = None\<close> if and only if every job of \<open>J\<close> is dead
  or has a namespace that begins with \<open>JOB_DATA_KEY_PREFIX\<close>; otherwise \<open>is_active\<close> is
  \<open>True\<close> and the reason is \<open>Number of active drivers: \<close> followed by the number of the
  jobs that are neither.
\<close>

theorem activity_classifier:
  assumes "get_all_job_info E timeout = Inr J"
  shows "\<exists>r. get_job_activity_info E timeout = (Inr r, [GetAllJobInfo timeout])
     \<and> ((is_active r = False \<and> reason r = None)
          \<longleftrightarrow> (\<forall>j \<in> set J. is_dead j \<or> prefix (JOB_DATA_KEY_PREFIX E) (ray_namespace (config j))))
     \<and> (\<not> (\<forall>j \<in> set J. is_dead j \<or> prefix (JOB_DATA_KEY_PREFIX E) (ray_namespace (config j)))
          \<longrightarrow> is_active r = True
              \<and> reason r = Some (''Number of active drivers: ''
                    @ str_of_nat (length (filter (\<lambda>j. \<not> is_dead j \<and> \<not> prefix (JOB_DATA_KEY_PREFIX E) (ray_namespace (config j))) J))))"
proof -
  let ?n = "length (filter (is_active_driver E) J)"
  have n0: "?n = 0 \<longleftrightarrow> (\<forall>j \<in> set J. is_dead j \<or> prefix (JOB_DATA_KEY_PREFIX E) (ray_namespace (config j)))"
    by (auto simp: filter_empty_conv is_active_driver_iff)
  have flt: "filter (\<lambda>j. \<not> is_dead j \<and> \<not> prefix (JOB_DATA_KEY_PREFIX E) (ray_namespace (config j))) J = filter (is_active_driver E) J"
    by (rule filter_cong) (simp_all add: is_active_driver_iff)
  show ?thesis
    using assms n0 unfolding get_job_activity_info_def count_active_drivers_filter flt
    by (auto simp: Let_def)
qed

lemma three_jobs_filter:
  "filter (\<lambda>j. \<not> is_dead j \<and> \<not> prefix ''_ray_internal_job_info_'' (ray_namespace (config j))) three_jobs
     = [job_of False ''user'']"
  by (simp add: three_jobs_def job_of_def)

theorem activity_classifier_witness:
  "get_all_job_info ((env_of_store [])\<lparr>get_all_job_info := \<lambda>t. Inr three_jobs\<rparr>) 7 = Inr three_jobs
   \<and> (\<exists>r. get_job_activity_info ((env_of_store [])\<lparr>get_all_job_info := \<lambda>t. Inr three_jobs\<rparr>) 7
           = (Inr r, [GetAllJobInfo 7])
         \<and> is_active r = True \<and> reason r = Some ''Number of active drivers: 1'')"
proof -
  let ?E = "(env_of_store [])\<lparr>get_all_job_info := \<lambda>t. Inr three_jobs\<rparr>"
  have h: "get_all_job_info ?E 7 = Inr three_jobs" by simp
  have p: "JOB_DATA_KEY_PREFIX ?E = ''_ray_internal_job_info_''" by (simp add: env_of_store_def)
  have ex: "\<not> (\<forall>j \<in> set three_jobs. is_dead j \<or> prefix (JOB_DATA_KEY_PREFIX ?E) (ray_namespace (config j)))"
    unfolding p by (simp add: three_jobs_def job_of_def)
  have s1: "str_of_nat (Suc 0) = ''1''" by (subst str_of_nat.simps) simp
  from activity_classifier [OF h] obtain r where
    r: "get_job_activity_info ?E 7 = (Inr r, [GetAllJobInfo 7])"
     "(\<not> (\<forall>j \<in> set three_jobs. is_dead j \<or> prefix (JOB_DATA_KEY_PREFIX ?E) (ray_namespace (config j)))
          \<longrightarrow> is_active r = True
              \<and> reason r = Some (''Number of active drivers: ''
                    @ str_of_nat (length (filter (\<lambda>j. \<not> is_dead j \<and> \<not> prefix (JOB_DATA_KEY_PREFIX ?E) (ray_namespace (config j))) three_jobs))))"
    by blast
  from r(2) ex have "is_active r = True \<and> reason r = Some (''Number of active drivers: ''
                    @ str_of_nat (length (filter (\<lambda>j. \<not> is_dead j \<and> \<not> prefix (JOB_DATA_KEY_PREFIX ?E) (ray_namespace (config j))) three_jobs)))"
    by blast
  then have "is_active r = True \<and> reason r = Some ''Number of active drivers: 1''"
    unfolding p three_jobs_filter by (simp add: s1)
  with h r(1) show ?thesis by blast
qed


subsection \<open>The actor-kill endpoint\<close>

text \<open>
  C9. When the query has no \<open>actor_id\<close>, or an empty one, \<open>kill_actor_gcs\<close> answers with
  \<open>success = False\<close> and the message \<open>actor_id is required.\<close>, and it issues no call to the
  actor registry.
\<close>

theorem kill_without_actor_id:
  assumes "query_get q ''actor_id'' = None \<or> query_get q ''actor_id'' = Some []"
  shows "kill_actor_gcs E q = (Inr \<lparr>success = False, message = ''actor_id is required.''\<rparr>, [])"
  using assms by (auto simp: kill_actor_gcs_def Let_def)

theorem kill_without_actor_id_witness:
  "(query_get [(''force_kill'', ''true''), (''actor_id'', '''')] ''actor_id'' = None
      \<or> query_get [(''force_kill'', ''true''), (''actor_id'', '''')] ''actor_id'' = Some [])
   \<and> kill_actor_gcs (env_of_store []) [(''force_kill'', ''true''), (''actor_id'', '''')]
       = (Inr \<lparr>success = False, message = ''actor_id is required.''\<rparr>, [])
   \<and> kill_actor_gcs (env_of_store []) [] = (Inr \<lparr>success = False, message = ''actor_id is required.''\<rparr>, [])"
proof -
  have h1: "query_get [(''force_kill'', ''true''), (''actor_id'', '''')] ''actor_id'' = None
      \<or> query_get [(''force_kill'', ''true''), (''actor_id'', '''')] ''actor_id'' = Some []"
    by (simp add: query_get_def)
  have h2: "query_get [] ''actor_id'' = None \<or> query_get [] ''actor_id'' = Some []"
    by (simp add: query_get_def)
  from h1 kill_without_actor_id [OF h1, of "env_of_store []"]
       kill_without_actor_id [OF h2, of "env_of_store []"]
  show ?thesis by blast
qed

text \<open>
  C8. The flag read from the query parameter \<open>k\<close> is true if and only if the value of the
  parameter is exactly \<open>true\<close> or \<open>True\<close>; so it is false for \<open>TRUE\<close>, \<open>1\<close>,
  \<open>yes\<close> and for an absent parameter. The request sent to the actor registry carries the
  two flags \<open>force_kill\<close> and \<open>no_restart\<close> read this way.
\<close>

theorem flag_parsing:
  "(query_flag q k \<longleftrightarrow> (query_get q k = Some ''true'' \<or> query_get q k = Some ''True''))
   \<and> (\<forall>a b. query_get q ''actor_id'' = Some a \<and> a \<noteq> [] \<and> fromhex a = Some b \<longrightarrow>
         snd (kill_actor_gcs E q)
           = [KillActorViaGcs
                \<lparr>req_actor_id = b,
                 req_force_kill = (query_get q ''force_kill'' = Some ''true''
                                   \<or> query_get q ''force_kill'' = Some ''True''),
                 req_no_restart = (query_get q ''no_restart'' = Some ''true''
                                   \<or> query_get q ''no_restart'' = Some ''True'')\<rparr> 5])"
proof -
  have flag: "query_flag q k \<longleftrightarrow> (query_get q k = Some ''true'' \<or> query_get q k = Some ''True'')"
    for k
    by (cases "query_get q k") (auto simp: query_flag_def)
  show ?thesis
    by (auto simp: flag kill_actor_gcs_def Let_def split: option.splits)
qed

theorem flag_parsing_witness:
  "\<not> query_flag [(''force_kill'', ''TRUE'')] ''force_kill''
   \<and> \<not> query_flag [(''force_kill'', ''1'')] ''force_kill''
   \<and> \<not> query_flag [(''force_kill'', ''yes'')] ''force_kill''
   \<and> \<not> query_flag [] ''force_kill''
   \<and> query_flag [(''force_kill'', ''true'')] ''force_kill''
   \<and> query_flag [(''no_restart'', ''True'')] ''no_restart''
   \<and> snd (kill_actor_gcs (env_of_store [])
             [(''actor_id'', ''0a''), (''force_kill'', ''TRUE''), (''no_restart'', ''True'')])
       = [KillActorViaGcs \<lparr>req_actor_id = [CHR 0x0A], req_force_kill = False,
                            req_no_restart = True\<rparr> 5]"
proof -
  let ?q = "[(''actor_id'', ''0a''), (''force_kill'', ''TRUE''), (''no_restart'', ''True'')]"
  have hex: "fromhex ''0a'' = Some [CHR 0x0A]" by code_simp
  have pre: "query_get ?q ''actor_id'' = Some ''0a'' \<and> ''0a'' \<noteq> [] \<and> fromhex ''0a'' = Some [CHR 0x0A]"
    using hex by (simp add: query_get_def)
  have fwd: "snd (kill_actor_gcs (env_of_store []) ?q)
       = [KillActorViaGcs \<lparr>req_actor_id = [CHR 0x0A], req_force_kill = False,
                            req_no_restart = True\<rparr> 5]"
    using flag_parsing [of ?q "''force_kill''" "env_of_store []"] pre
    by (simp add: query_get_def)
  show ?thesis
    using fwd
      flag_parsing [of "[(''force_kill'', ''TRUE'')]" "''force_kill''" "env_of_store []"]
      flag_parsing [of "[(''force_kill'', ''1'')]" "''force_kill''" "env_of_store []"]
      flag_parsing [of "[(''force_kill'', ''yes'')]" "''force_kill''" "env_of_store []"]
      flag_parsing [of "[]" "''force_kill''" "env_of_store []"]
      flag_parsing [of "[(''force_kill'', ''true'')]" "''force_kill''" "env_of_store []"]
      flag_parsing [of "[(''no_restart'', ''True'')]" "''no_restart''" "env_of_store []"]
    by (simp add: query_get_def)
qed

subsection \<open>The timeout of the activity endpoint\<close>

text \<open>What the parsing of the \<open>timeout\<close> parameter does: the default at an absent parameter
  and at one that \<open>isdigit\<close> rejects, the value at a string of decimal digits. The job
  fetch is called with the parsed timeout.\<close>

lemma request_timeout_absent: "query_get q ''timeout'' = None \<Longrightarrow> request_timeout q = Inr 5"
  by (simp add: request_timeout_def)

lemma request_timeout_not_digits:
  "query_get q ''timeout'' = Some t \<Longrightarrow> \<not> isdigit t \<Longrightarrow> request_timeout q = Inr 5"
  by (simp add: request_timeout_def)

lemma request_timeout_decimal:
  "query_get q ''timeout'' = Some t \<Longrightarrow> t \<noteq> [] \<Longrightarrow> list_all is_decimal_char t \<Longrightarrow>
   request_timeout q = Inr (foldl (\<lambda>acc c. 10 * acc + digit_value c) 0 t)"
  by (simp add: request_timeout_def isdigit_def int_of_str_def is_digit_char_def list_all_iff)

lemma timeout_passed:
  "request_timeout q = Inr t \<Longrightarrow> snd (get_component_activities E q) = [GetAllJobInfo t]"
  by (auto simp: get_component_activities_def get_job_activity_info_def Let_def split: sum.splits)

text \<open>
  C7. The claim asks for the default 5 at every value that is not a number. The string
  made of the one character U+00B2 (superscript two) is no number for \<open>int\<close>, yet
  \<open>isdigit\<close> accepts it: the handler calls \<open>int\<close> on it and raises \<open>ValueError\<close>, before
  any job fetch.
\<close>

theorem timeout_superscript_two:
  "isdigit [CHR 0xB2]
   \<and> get_component_activities E [(''timeout'', [CHR 0xB2])] = (Inl ValueError, [])"
  by (simp add: get_component_activities_def request_timeout_def query_get_def isdigit_def int_of_str_def is_digit_char_def is_decimal_char_def)

subsection \<open>The deployment snapshot resolver\<close>

text \<open>Dictionaries built by repeated assignment: lookup, keys, distinctness.\<close>

lemma map_of_fold_update:
  "map_of (fold (\<lambda>(k, v). AList.update k v) xs acc) n
     = (case map_of (rev xs) n of Some v \<Rightarrow> Some v | None \<Rightarrow> map_of acc n)"
proof (induction xs arbitrary: acc)
  case Nil
  show ?case by simp
next
  case (Cons x xs)
  obtain k v where x: "x = (k, v)" by (cases x)
  show ?case
    by (simp add: x Cons.IH update_conv map_add_def split: option.splits)
qed

lemma distinct_fold_update:
  "distinct (map fst acc) \<Longrightarrow> distinct (map fst (fold (\<lambda>(k, v). AList.update k v) xs acc))"
  by (induction xs arbitrary: acc) (auto simp: distinct_update)

lemma keys_fold_update:
  "fst ` set (fold (\<lambda>(k, v). AList.update k v) xs acc) = fst ` set acc \<union> fst ` set xs"
proof (induction xs arbitrary: acc)
  case Nil
  show ?case by simp
next
  case (Cons x xs)
  obtain k v where x: "x = (k, v)" by (cases x)
  have "fst ` set (fold (\<lambda>(k, v). AList.update k v) (x # xs) acc)
        = fst ` set (AList.update k v acc) \<union> fst ` set xs"
    by (simp add: x Cons.IH)
  also have "\<dots> = fst ` set acc \<union> fst ` set (x # xs)"
    unfolding dom_update by (auto simp: x)
  finally show ?case .
qed

lemma map_of_rev_distinct:
  "distinct (map fst xs) \<Longrightarrow> map_of (rev xs) = map_of xs"
  by (rule map_of_inject_set [THEN iffD2]) (simp_all add: rev_map [symmetric])


lemma load_values_all:
  assumes "\<forall>k \<in> set ks. \<exists>d. load_value E k = Inr (f k)"
  shows "load_values E ks = Inr (map f ks)"
  using assms by (induction ks) auto

lemma merge_deployments_dicts:
  "merge_deployments (map JDict ds) acc
     = Inr (fold (\<lambda>d. fold (\<lambda>(k, v). AList.update k v) d) ds acc)"
  by (induction ds arbitrary: acc) auto

lemma merged_not_defined:
  assumes "\<forall>d \<in> set ds. n \<notin> fst ` set d"
  shows "map_of (fold (\<lambda>d. fold (\<lambda>(k, v). AList.update k v) d) ds acc) n = map_of acc n"
  using assms
proof (induction ds arbitrary: acc)
  case Nil
  show ?case by simp
next
  case (Cons d ds)
  from Cons.prems have "map_of (rev d) n = None" by (simp add: map_of_eq_None_iff)
  with Cons show ?case by (simp add: map_of_fold_update)
qed

lemma merged_last_defined:
  assumes "map_of d n = Some v" and "distinct (map fst d)"
    and "\<forall>d' \<in> set post. n \<notin> fst ` set d'"
  shows "map_of (fold (\<lambda>d. fold (\<lambda>(k, v). AList.update k v) d) (pre @ d # post) acc) n = Some v"
proof -
  have "map_of (rev d) n = Some v"
    using assms(1,2) by (simp add: map_of_rev_distinct)
  then show ?thesis
    using assms(3) by (simp add: merged_not_defined map_of_fold_update)
qed

lemma merged_distinct:
  "distinct (map fst acc) \<Longrightarrow>
   distinct (map fst (fold (\<lambda>d. fold (\<lambda>(k, v). AList.update k v) d) ds acc))"
  by (induction ds arbitrary: acc) (auto simp: distinct_fold_update)

lemma merged_keys:
  "fst ` set (fold (\<lambda>d. fold (\<lambda>(k, v). AList.update k v) d) ds acc)
     = fst ` set acc \<union> (\<Union>d \<in> set ds. fst ` set d)"
  by (induction ds arbitrary: acc) (auto simp: keys_fold_update)

lemma map_of_renamed:
  assumes "\<forall>n' \<in> fst ` set xs. f n' = f n \<longrightarrow> n' = n"
  shows "map_of (map (\<lambda>(k, v). (f k, v)) xs) (f n) = map_of xs n"
  using assms by (induction xs) auto

lemma hash_names_lookup:
  assumes "distinct (map fst m)"
    and "\<forall>n' \<in> fst ` set m. sha1_hexdigest E (utf8_encode n') = sha1_hexdigest E (utf8_encode n)
           \<longrightarrow> n' = n"
  shows "map_of (hash_names E m) (sha1_hexdigest E (utf8_encode n)) = map_of m n"
proof -
  let ?f = "\<lambda>k. sha1_hexdigest E (utf8_encode k)"
  have fold_eq: "fold (\<lambda>(name, info). AList.update (?f name) info) xs acc
        = fold (\<lambda>(k, v). AList.update k v) (map (\<lambda>(k, v). (?f k, v)) xs) acc"
    for xs :: deployments and acc :: deployments
    by (induction xs arbitrary: acc) (auto simp: split_beta)
  have "map_of (hash_names E m) (?f n) = map_of (map (\<lambda>(k, v). (?f k, v)) (rev m)) (?f n)"
    unfolding hash_names_def fold_eq
    by (simp add: map_of_fold_update rev_map split: option.splits)
  also have "\<dots> = map_of (rev m) n"
    using assms(2) by (intro map_of_renamed) simp
  also have "\<dots> = map_of m n"
    using assms(1) by (rule map_of_rev_distinct [THEN fun_cong])
  finally show ?thesis .
qed

lemma hash_names_keys:
  "fst ` set (hash_names E m) = (\<lambda>n. sha1_hexdigest E (utf8_encode n)) ` fst ` set m"
proof -
  have "fst ` set (fold (\<lambda>(name, info). AList.update (sha1_hexdigest E (utf8_encode name)) info) xs acc)
        = fst ` set acc \<union> (\<lambda>n. sha1_hexdigest E (utf8_encode n)) ` fst ` set xs"
    for xs :: deployments and acc :: deployments
    by (induction xs arbitrary: acc) (auto simp: dom_update split_beta)
  then show ?thesis by (simp add: hash_names_def)
qed

lemma load_values_first_error:
  assumes "\<forall>k \<in> set pre. \<exists>d. load_value E k = Inr d"
    and "load_value E key = Inl e"
  shows "load_values E (pre @ key # post) = Inl e"
  using assms by (induction pre) (auto split: sum.splits)

lemma get_serve_info_unfold:
  assumes "serve_constants E = Some (controller, marker)"
    and "internal_kv_list E controller KV_NAMESPACE_SERVE = Inr serve_keys"
  shows "get_serve_info E =
     (case load_values E (filter (\<lambda>k. sublist marker (str_of_bytes k)) serve_keys) of
        Inl e \<Rightarrow> Inl e
      | Inr ds \<Rightarrow> (case merge_deployments ds [] of
                     Inl e \<Rightarrow> Inl e
                   | Inr m \<Rightarrow> Inr (hash_names E m)))"
  using assms by (simp add: get_serve_info_def get_deployments_def)

text \<open>
  C5. Let the scanned snapshot keys all hold dictionaries, and let the key at position \<open>j\<close>
  of the scan define the deployment \<open>name\<close> with the value \<open>info\<close>, no later key
  defining \<open>name\<close>. Then, whatever the earlier keys hold for \<open>name\<close>, the resolver
  returns a mapping that holds \<open>info\<close> under the SHA-1 digest of \<open>name\<close> (no other merged
  name having the same digest), and the keys of the mapping are the digests of the merged
  names.
\<close>

theorem later_key_wins:
  assumes imported: "serve_constants E = Some (controller, marker)"
    and listed: "internal_kv_list E controller KV_NAMESPACE_SERVE = Inr serve_keys"
    and scanned: "ks = filter (\<lambda>k. sublist marker (str_of_bytes k)) serve_keys"
    and loaded: "\<forall>k \<in> set ks. load_value E k = Inr (JDict (D k)) \<and> distinct (map fst (D k))"
    and later: "j < length ks" "map_of (D (ks ! j)) name = Some info"
    and last: "\<forall>l. j < l \<and> l < length ks \<longrightarrow> name \<notin> fst ` set (D (ks ! l))"
    and no_collision:
      "\<forall>k \<in> set ks. \<forall>n \<in> fst ` set (D k).
         sha1_hexdigest E (utf8_encode n) = sha1_hexdigest E (utf8_encode name) \<longrightarrow> n = name"
  shows "\<exists>r. get_serve_info E = Inr r
           \<and> map_of r (sha1_hexdigest E (utf8_encode name)) = Some info
           \<and> fst ` set r
               = (\<lambda>n. sha1_hexdigest E (utf8_encode n)) ` (\<Union>k \<in> set ks. fst ` set (D k))"
proof -
  let ?m = "fold (\<lambda>d. fold (\<lambda>(k, v). AList.update k v) d) (map D ks) []"
  have lv: "load_values E ks = Inr (map (\<lambda>k. JDict (D k)) ks)"
    using loaded by (intro load_values_all) auto
  have md: "merge_deployments (map (\<lambda>k. JDict (D k)) ks) [] = Inr ?m"
    using merge_deployments_dicts [of "map D ks" "[]"] by (simp add: comp_def)
  have r: "get_serve_info E = Inr (hash_names E ?m)"
    by (simp add: get_serve_info_unfold [OF imported listed] scanned [symmetric] lv md)
  have split: "map D ks = map D (take j ks) @ D (ks ! j) # map D (drop (Suc j) ks)"
    using later(1) by (metis id_take_nth_drop list.simps(9) map_append)
  have post: "\<forall>d' \<in> set (map D (drop (Suc j) ks)). name \<notin> fst ` set d'"
  proof
    fix d' assume "d' \<in> set (map D (drop (Suc j) ks))"
    then obtain l where l: "l < length (drop (Suc j) ks)" "d' = D (drop (Suc j) ks ! l)"
      by (auto simp: in_set_conv_nth)
    then have "d' = D (ks ! (Suc j + l))" and "Suc j + l < length ks" by auto
    with last show "name \<notin> fst ` set d'" by auto
  qed
  have dj: "distinct (map fst (D (ks ! j)))"
    using loaded later(1) by simp
  have look: "map_of ?m name = Some info"
    unfolding split by (rule merged_last_defined [OF later(2) dj post])
  have keys: "fst ` set ?m = (\<Union>k \<in> set ks. fst ` set (D k))"
    by (simp add: merged_keys)
  have dist: "distinct (map fst ?m)"
    by (rule merged_distinct) simp
  have "map_of (hash_names E ?m) (sha1_hexdigest E (utf8_encode name)) = map_of ?m name"
    by (rule hash_names_lookup [OF dist]) (use no_collision keys in auto)
  with r look keys show ?thesis
    by (simp add: hash_names_keys)
qed

lemma tc1: "serve_constants (env_of_store two_controllers)
   = Some (''SERVE_CONTROLLER_ACTOR'', ''serve-deployments-snapshot'')"
  by (simp add: env_of_store_def)

lemma tc2: "internal_kv_list (env_of_store two_controllers) ''SERVE_CONTROLLER_ACTOR'' KV_NAMESPACE_SERVE
   = Inr (map fst two_controllers)"
  by (simp add: env_of_store_def two_controllers_def)

lemma tc3: "filter (\<lambda>k. sublist ''serve-deployments-snapshot'' (str_of_bytes k)) (map fst two_controllers)
   = [''SERVE_CONTROLLER_ACTOR:aaaaaa:serve-deployments-snapshot'',
      ''SERVE_CONTROLLER_ACTOR:bbbbbb:serve-deployments-snapshot'']"
  by code_simp

lemma tc4: "load_value (env_of_store two_controllers)
      ''SERVE_CONTROLLER_ACTOR:aaaaaa:serve-deployments-snapshot''
    = Inr (JDict (two_dicts ''SERVE_CONTROLLER_ACTOR:aaaaaa:serve-deployments-snapshot''))"
  by code_simp

lemma tc5: "load_value (env_of_store two_controllers)
      ''SERVE_CONTROLLER_ACTOR:bbbbbb:serve-deployments-snapshot''
    = Inr (JDict (two_dicts ''SERVE_CONTROLLER_ACTOR:bbbbbb:serve-deployments-snapshot''))"
  by code_simp


theorem later_key_wins_witness:
  "\<exists>r. get_serve_info (env_of_store two_controllers) = Inr r
     \<and> map_of r ''a0089182becd921781d5ba1e58fa4d129b24060f''
         = Some (JDict [(''name'', JStr ''svc''), (''version'', JStr ''2'')])
     \<and> fst ` set r = {''a0089182becd921781d5ba1e58fa4d129b24060f'',
                        ''7d1043473d55bfa90e8530d35801d4e381bc69f0''}"
proof -
  let ?E = "env_of_store two_controllers"
  let ?ks = "[''SERVE_CONTROLLER_ACTOR:aaaaaa:serve-deployments-snapshot'',
              ''SERVE_CONTROLLER_ACTOR:bbbbbb:serve-deployments-snapshot'']"
  have scanned: "?ks = filter (\<lambda>k. sublist ''serve-deployments-snapshot'' (str_of_bytes k))
                        (map fst two_controllers)"
    by (simp only: tc3)
  have loaded: "\<forall>k \<in> set ?ks. load_value ?E k = Inr (JDict (two_dicts k))
                  \<and> distinct (map fst (two_dicts k))"
    using tc4 tc5 by (simp add: two_dicts_def)
  have j: "Suc 0 < length ?ks" by simp
  have info: "map_of (two_dicts (?ks ! Suc 0)) ''svc''
      = Some (JDict [(''name'', JStr ''svc''), (''version'', JStr ''2'')])"
    by (simp add: two_dicts_def)
  have last: "\<forall>l. Suc 0 < l \<and> l < length ?ks \<longrightarrow> ''svc'' \<notin> fst ` set (two_dicts (?ks ! l))"
    by auto
  have sha: "sha1_hexdigest ?E = sha1_hexdigest_table"
    by (simp add: env_of_store_def)
  have enc: "utf8_encode ''svc'' = ''svc''" "utf8_encode ''app'' = ''app''"
    by (simp_all add: utf8_encode_def)
  have no_collision: "\<forall>k \<in> set ?ks. \<forall>n \<in> fst ` set (two_dicts k).
       sha1_hexdigest ?E (utf8_encode n) = sha1_hexdigest ?E (utf8_encode ''svc'') \<longrightarrow> n = ''svc''"
    by (simp add: sha enc two_dicts_def sha1_hexdigest_table_def)
  have keys: "(\<lambda>n. sha1_hexdigest ?E (utf8_encode n)) ` (\<Union>k \<in> set ?ks. fst ` set (two_dicts k))
      = {''a0089182becd921781d5ba1e58fa4d129b24060f'', ''7d1043473d55bfa90e8530d35801d4e381bc69f0''}"
    by (auto simp add: sha enc two_dicts_def sha1_hexdigest_table_def)
  have dig: "sha1_hexdigest ?E (utf8_encode ''svc'') = ''a0089182becd921781d5ba1e58fa4d129b24060f''"
    by (simp add: sha enc sha1_hexdigest_table_def)
  from later_key_wins [OF tc1 tc2 scanned loaded j info last no_collision]
  show ?thesis unfolding keys dig .
qed

text \<open>
  C2, as stated, fails: a snapshot key whose value is not JSON makes the resolver raise
  \<open>JSONDecodeError\<close>.
\<close>

theorem malformed_value_raises:
  "sublist ''serve-deployments-snapshot''
     (str_of_bytes ''SERVE_CONTROLLER_ACTOR:serve-deployments-snapshot'')
   \<and> internal_kv_get (env_of_store malformed_store)
         ''SERVE_CONTROLLER_ACTOR:serve-deployments-snapshot'' KV_NAMESPACE_SERVE
       = Inr (Some ''not json'')
   \<and> get_serve_info (env_of_store malformed_store) = Inl JSONDecodeError"
  by code_simp

text \<open>
  C2, amended. For a key of the scan, a missing value and an empty value are treated as
  the empty JSON object (\<open>json.loads\<close> decoding \<open>{}\<close> to the empty dictionary). A value
  that \<open>json.loads\<close> rejects is not recovered: loading it raises \<open>JSONDecodeError\<close>, and
  so does the resolver when the keys scanned before it load.
\<close>

theorem missing_or_empty_value:
  assumes "utf8_decode E ''{}'' = Some ''{}''" and "json_loads E ''{}'' = Some (JDict [])"
  shows "(internal_kv_get E key KV_NAMESPACE_SERVE = Inr None
            \<or> internal_kv_get E key KV_NAMESPACE_SERVE = Inr (Some [])
          \<longrightarrow> load_value E key = Inr (JDict []))
     \<and> (\<forall>b s. internal_kv_get E key KV_NAMESPACE_SERVE = Inr (Some b) \<and> b \<noteq> []
            \<and> utf8_decode E b = Some s \<and> json_loads E s = None
          \<longrightarrow> load_value E key = Inl JSONDecodeError
              \<and> (\<forall>controller marker serve_keys pre post.
                    serve_constants E = Some (controller, marker)
                    \<and> internal_kv_list E controller KV_NAMESPACE_SERVE = Inr serve_keys
                    \<and> filter (\<lambda>k. sublist marker (str_of_bytes k)) serve_keys = pre @ key # post
                    \<and> (\<forall>k \<in> set pre. \<exists>d. load_value E k = Inr d)
                  \<longrightarrow> get_serve_info E = Inl JSONDecodeError))"
proof (intro conjI impI allI)
  assume "internal_kv_get E key KV_NAMESPACE_SERVE = Inr None
            \<or> internal_kv_get E key KV_NAMESPACE_SERVE = Inr (Some [])"
  then show "load_value E key = Inr (JDict [])"
    using assms by (auto simp: load_value_def)
next
  fix b s
  assume h: "internal_kv_get E key KV_NAMESPACE_SERVE = Inr (Some b) \<and> b \<noteq> []
            \<and> utf8_decode E b = Some s \<and> json_loads E s = None"
  then show lv: "load_value E key = Inl JSONDecodeError"
    by (simp add: load_value_def)
  fix controller marker serve_keys pre post
  assume g: "serve_constants E = Some (controller, marker)
       \<and> internal_kv_list E controller KV_NAMESPACE_SERVE = Inr serve_keys
       \<and> filter (\<lambda>k. sublist marker (str_of_bytes k)) serve_keys = pre @ key # post
       \<and> (\<forall>k \<in> set pre. \<exists>d. load_value E k = Inr d)"
  then have "load_values E (pre @ key # post) = Inl JSONDecodeError"
    using lv by (intro load_values_first_error) auto
  with g show "get_serve_info E = Inl JSONDecodeError"
    by (simp add: get_serve_info_unfold [of E controller marker serve_keys])
qed

theorem missing_or_empty_value_witness:
  "(utf8_decode (env_of_store empty_value_store) ''{}'' = Some ''{}''
   \<and> json_loads (env_of_store empty_value_store) ''{}'' = Some (JDict [])
   \<and> internal_kv_get (env_of_store empty_value_store)
         ''SERVE_CONTROLLER_ACTOR:serve-deployments-snapshot'' KV_NAMESPACE_SERVE = Inr (Some [])
   \<and> load_value (env_of_store empty_value_store)
         ''SERVE_CONTROLLER_ACTOR:serve-deployments-snapshot'' = Inr (JDict [])
   \<and> internal_kv_get (env_of_store empty_value_store) ''absent'' KV_NAMESPACE_SERVE = Inr None
   \<and> load_value (env_of_store empty_value_store) ''absent'' = Inr (JDict [])
   \<and> get_serve_info (env_of_store empty_value_store) = Inr [])
   \<and> (utf8_decode (env_of_store malformed_store) ''{}'' = Some ''{}''
   \<and> json_loads (env_of_store malformed_store) ''{}'' = Some (JDict [])
   \<and> internal_kv_get (env_of_store malformed_store)
         ''SERVE_CONTROLLER_ACTOR:serve-deployments-snapshot'' KV_NAMESPACE_SERVE
       = Inr (Some ''not json'')
   \<and> utf8_decode (env_of_store malformed_store) ''not json'' = Some ''not json''
   \<and> json_loads (env_of_store malformed_store) ''not json'' = None
   \<and> load_value (env_of_store malformed_store)
         ''SERVE_CONTROLLER_ACTOR:serve-deployments-snapshot'' = Inl JSONDecodeError
   \<and> get_serve_info (env_of_store malformed_store) = Inl JSONDecodeError)"
proof -
  have empty_value:
    "utf8_decode (env_of_store empty_value_store) ''{}'' = Some ''{}''
     \<and> json_loads (env_of_store empty_value_store) ''{}'' = Some (JDict [])
     \<and> internal_kv_get (env_of_store empty_value_store)
           ''SERVE_CONTROLLER_ACTOR:serve-deployments-snapshot'' KV_NAMESPACE_SERVE = Inr (Some [])
     \<and> load_value (env_of_store empty_value_store)
           ''SERVE_CONTROLLER_ACTOR:serve-deployments-snapshot'' = Inr (JDict [])
     \<and> internal_kv_get (env_of_store empty_value_store) ''absent'' KV_NAMESPACE_SERVE = Inr None
     \<and> load_value (env_of_store empty_value_store) ''absent'' = Inr (JDict [])
     \<and> get_serve_info (env_of_store empty_value_store) = Inr []"
  proof -
    let ?E = "env_of_store empty_value_store"
    have a: "utf8_decode ?E ''{}'' = Some ''{}''" by code_simp
    have b: "json_loads ?E ''{}'' = Some (JDict [])" by code_simp
    have c: "internal_kv_get ?E ''SERVE_CONTROLLER_ACTOR:serve-deployments-snapshot''
               KV_NAMESPACE_SERVE = Inr (Some [])"
      by (simp add: env_of_store_def empty_value_store_def)
    have d: "internal_kv_get ?E ''absent'' KV_NAMESPACE_SERVE = Inr None"
      by (simp add: env_of_store_def empty_value_store_def)
    have e: "get_serve_info ?E = Inr []" by code_simp
    from missing_or_empty_value [OF a b, of "''SERVE_CONTROLLER_ACTOR:serve-deployments-snapshot''"]
         missing_or_empty_value [OF a b, of "''absent''"] a b c d e
    show ?thesis by simp
  qed
  have malformed_value:
    "utf8_decode (env_of_store malformed_store) ''{}'' = Some ''{}''
     \<and> json_loads (env_of_store malformed_store) ''{}'' = Some (JDict [])
     \<and> internal_kv_get (env_of_store malformed_store)
           ''SERVE_CONTROLLER_ACTOR:serve-deployments-snapshot'' KV_NAMESPACE_SERVE
         = Inr (Some ''not json'')
     \<and> utf8_decode (env_of_store malformed_store) ''not json'' = Some ''not json''
     \<and> json_loads (env_of_store malformed_store) ''not json'' = None
     \<and> load_value (env_of_store malformed_store)
           ''SERVE_CONTROLLER_ACTOR:serve-deployments-snapshot'' = Inl JSONDecodeError
     \<and> get_serve_info (env_of_store malformed_store) = Inl JSONDecodeError"
  proof -
    let ?E = "env_of_store malformed_store"
    let ?k = "''SERVE_CONTROLLER_ACTOR:serve-deployments-snapshot''"
    have a: "utf8_decode ?E ''{}'' = Some ''{}''" by code_simp
    have b: "json_loads ?E ''{}'' = Some (JDict [])" by code_simp
    have c: "internal_kv_get ?E ?k KV_NAMESPACE_SERVE = Inr (Some ''not json'')"
      by (simp add: env_of_store_def malformed_store_def)
    have d: "utf8_decode ?E ''not json'' = Some ''not json''" by code_simp
    have e: "json_loads ?E ''not json'' = None" by code_simp
    have f: "serve_constants ?E = Some (''SERVE_CONTROLLER_ACTOR'', ''serve-deployments-snapshot'')"
      by (simp add: env_of_store_def)
    have g: "internal_kv_list ?E ''SERVE_CONTROLLER_ACTOR'' KV_NAMESPACE_SERVE = Inr [?k]"
      by (simp add: env_of_store_def malformed_store_def)
    have h: "filter (\<lambda>k. sublist ''serve-deployments-snapshot'' (str_of_bytes k)) [?k] = [] @ ?k # []"
      by code_simp
    have i: "\<forall>k \<in> set ([] :: bytes list). \<exists>d. load_value ?E k = Inr d" by simp
    from missing_or_empty_value [OF a b, of ?k] c d e
    have "load_value ?E ?k = Inl JSONDecodeError
       \<and> (\<forall>controller marker serve_keys pre post.
                      serve_constants ?E = Some (controller, marker)
                      \<and> internal_kv_list ?E controller KV_NAMESPACE_SERVE = Inr serve_keys
                      \<and> filter (\<lambda>k. sublist marker (str_of_bytes k)) serve_keys = pre @ ?k # post
                      \<and> (\<forall>k \<in> set pre. \<exists>d. load_value ?E k = Inr d)
                    \<longrightarrow> get_serve_info ?E = Inl JSONDecodeError)"
      by blast
    with f g h i have "load_value ?E ?k = Inl JSONDecodeError \<and> get_serve_info ?E = Inl JSONDecodeError"
      by blast
    with a b c d e show ?thesis by blast
  qed
  from empty_value malformed_value show ?thesis by blast
qed

subsection \<open>The join of actors and deployments\<close>

text \<open>The join, when it returns, attaches \<open>serve_of deployments\<close>.\<close>

lemma attach_keys: "map fst (attach f A) = map fst A"
  by (induction A) (auto simp: attach_def)

lemma attach_cong:
  "(\<And>a. a \<in> fst ` set A \<Longrightarrow> f a = g a) \<Longrightarrow> attach f A = attach g A"
  by (induction A) (auto simp: attach_def)

lemma attach_None: "attach (\<lambda>a. None) A = A"
  by (induction A) (auto simp: attach_def)

lemma attach_attach:
  "attach g (attach f A) = attach (\<lambda>a. case g a of Some m \<Rightarrow> Some m | None \<Rightarrow> f a) A"
  by (induction A) (auto simp: attach_def split: option.splits)

lemma attach_idem: "attach f (attach f A) = attach f A"
  unfolding attach_attach by (rule attach_cong) (simp split: option.splits)

lemma set_serve_attach:
  "distinct (map fst A) \<Longrightarrow> set_serve a m A = attach ((\<lambda>a. None)(a := Some m)) A"
proof (induction A)
  case Nil
  show ?case by (simp add: set_serve_def attach_def)
next
  case (Cons p A)
  obtain k e where p: "p = (k, e)" by (cases p)
  show ?case
  proof (cases "k = a")
    case True
    with Cons.prems p have "a \<notin> fst ` set A" by auto
    then have "attach ((\<lambda>a. None)(a := Some m)) A = attach (\<lambda>a. None) A"
      by (intro attach_cong) auto
    then show ?thesis
      using True p by (simp add: set_serve_def attach_def attach_None [unfolded attach_def])
  next
    case False
    with Cons p show ?thesis by (simp add: set_serve_def attach_def)
  qed
qed

lemma attach_update:
  "attach f (AList.update k e (attach f A)) = attach f (AList.update k e A)"
proof (induction A)
  case Nil
  show ?case by (simp add: attach_def)
next
  case (Cons p A)
  obtain k' e' where p: "p = (k', e')" by (cases p)
  show ?case
  proof (cases "k' = k")
    case True
    have "attach f (attach f A) = attach f A" by (rule attach_idem)
    then show ?thesis using True p by (simp add: attach_def)
  next
    case False
    have one: "attach f [(k', e')] = attach f (attach f [(k', e')])" by (simp add: attach_idem)
    from False p Cons.IH show ?thesis
      using one by (auto simp: attach_def split: option.splits)
  qed
qed


lemma set_serve_keys: "map fst (set_serve a m A) = map fst A"
  by (induction A) (auto simp: set_serve_def)

lemma join_replicas_keys:
  "join_replicas dinfo reps A = Inr A' \<Longrightarrow> map fst A' = map fst A"
proof (induction reps arbitrary: A)
  case Nil
  then show ?case by simp
next
  case (Cons p reps)
  obtain a ainfo where p: "p = (a, ainfo)" by (cases p)
  from Cons.prems show ?case
    unfolding p
    by (auto simp: set_serve_keys split: if_splits sum.splits dest!: Cons.IH)
qed

lemma join_replicas_ok:
  assumes "join_replicas dinfo reps A = Inr A'" and "(a, x) \<in> set reps"
    and "a \<in> fst ` set A"
  shows "\<exists>m. serve_metadata dinfo x = Inr m"
  using assms
proof (induction reps arbitrary: A)
  case Nil
  then show ?case by simp
next
  case (Cons p reps)
  obtain b ainfo where p: "p = (b, ainfo)" by (cases p)
  show ?case
  proof (cases "(a, x) = p")
    case True
    with Cons.prems p show ?thesis by (auto split: sum.splits)
  next
    case False
    with Cons.prems have mem: "(a, x) \<in> set reps" by simp
    show ?thesis
    proof (cases "b \<in> fst ` set A")
      case False
      with Cons.prems p have "join_replicas dinfo reps A = Inr A'" by simp
      from Cons.IH [OF this mem Cons.prems(3)] show ?thesis .
    next
      case True
      with Cons.prems p obtain m where
        rest: "join_replicas dinfo reps (set_serve b m A) = Inr A'"
        by (auto split: sum.splits)
      have "a \<in> fst ` set (set_serve b m A)"
        using Cons.prems(3) by (simp add: set_serve_def dom_map_entry)
      from Cons.IH [OF rest mem this] show ?thesis .
    qed
  qed
qed

lemma join_replicas_attach:
  assumes "distinct (map fst A)" and "join_replicas dinfo reps A = Inr A'"
  shows "A' = attach (serve_of_replicas dinfo reps) A"
  using assms
proof (induction reps arbitrary: A)
  case Nil
  then show ?case by (simp add: serve_of_replicas_def attach_None)
next
  case (Cons p reps)
  obtain a ainfo where p: "p = (a, ainfo)" by (cases p)
  show ?case
  proof (cases "a \<in> fst ` set A")
    case False
    with Cons.prems p have "join_replicas dinfo reps A = Inr A'" by simp
    with Cons have "A' = attach (serve_of_replicas dinfo reps) A" by blast
    also have "\<dots> = attach (serve_of_replicas dinfo (p # reps)) A"
    proof (rule attach_cong)
      fix b assume "b \<in> fst ` set A"
      with False have "b \<noteq> a" by auto
      then show "serve_of_replicas dinfo reps b = serve_of_replicas dinfo (p # reps) b"
        by (simp add: serve_of_replicas_def p map_add_def split: option.splits)
    qed
    finally show ?thesis .
  next
    case True
    with Cons.prems p obtain m where m: "serve_metadata dinfo ainfo = Inr m"
      and rest: "join_replicas dinfo reps (set_serve a m A) = Inr A'"
      by (auto split: sum.splits)
    have d: "distinct (map fst (set_serve a m A))"
      using Cons.prems(1) by (simp add: set_serve_keys)
    from Cons.IH [OF d rest]
    have "A' = attach (serve_of_replicas dinfo reps) (attach ((\<lambda>a. None)(a := Some m)) A)"
      by (simp add: set_serve_attach [OF Cons.prems(1)])
    also have "\<dots> = attach (serve_of_replicas dinfo (p # reps)) A"
      unfolding attach_attach
    proof (rule attach_cong)
      fix b assume b: "b \<in> fst ` set A"
      show "(case serve_of_replicas dinfo reps b of
               None \<Rightarrow> ((\<lambda>a. None)(a := Some m)) b | Some m' \<Rightarrow> Some m')
            = serve_of_replicas dinfo (p # reps) b"
      proof (cases "map_of (rev reps) b")
        case None
        then show ?thesis
          by (simp add: serve_of_replicas_def p m map_add_def)
      next
        case (Some x)
        then have "(b, x) \<in> set reps" by (auto dest: map_of_SomeD)
        moreover have "b \<in> fst ` set (set_serve a m A)"
          using b by (simp add: set_serve_def dom_map_entry)
        ultimately obtain m' where "serve_metadata dinfo x = Inr m'"
          using join_replicas_ok [OF rest] by blast
        with Some show ?thesis
          by (simp add: serve_of_replicas_def p map_add_def)
      qed
    qed
    finally show ?thesis .
  qed
qed

lemma join_deployments_keys:
  "join_deployments ds A = Inr A' \<Longrightarrow> map fst A' = map fst A"
proof (induction ds arbitrary: A)
  case Nil
  then show ?case by simp
next
  case (Cons p ds)
  obtain k dinfo where p: "p = (k, dinfo)" by (cases p)
  from Cons.prems show ?case
    unfolding p
    by (auto split: sum.splits dest!: Cons.IH join_replicas_keys)
qed

lemma join_deployments_attach:
  assumes "distinct (map fst A)" and "join_deployments ds A = Inr A'"
  shows "A' = attach (serve_of ds) A"
  using assms
proof (induction ds arbitrary: A)
  case Nil
  then show ?case by (simp add: attach_None)
next
  case (Cons p ds)
  obtain k dinfo where p: "p = (k, dinfo)" by (cases p)
  from Cons.prems p obtain replicas reps A1 where
    r: "subscript dinfo ''actors'' = Inr replicas" "items replicas = Inr reps"
    and j1: "join_replicas dinfo reps A = Inr A1"
    and j2: "join_deployments ds A1 = Inr A'"
    by (auto split: sum.splits)
  have reps: "replicas_of dinfo = reps" using r by (simp add: replicas_of_def)
  have A1: "A1 = attach (serve_of_replicas dinfo reps) A"
    by (rule join_replicas_attach [OF Cons.prems(1) j1])
  have d: "distinct (map fst A1)"
    using Cons.prems(1) join_replicas_keys [OF j1] by simp
  from Cons.IH [OF d j2] have "A' = attach (serve_of ds) (attach (serve_of_replicas dinfo reps) A)"
    by (simp add: A1)
  also have "\<dots> = attach (serve_of (p # ds)) A"
    unfolding attach_attach by (rule attach_cong) (simp add: p reps cong: option.case_cong)
  finally show ?case .
qed

text \<open>Whether the join raises depends on the actor map only through its keys.\<close>

lemma join_replicas_same_keys:
  assumes "fst ` set B = fst ` set A" and "join_replicas dinfo reps A = Inr A'"
  shows "\<exists>B'. join_replicas dinfo reps B = Inr B'"
  using assms
proof (induction reps arbitrary: A B A')
  case Nil
  then show ?case by simp
next
  case (Cons p reps)
  obtain a ainfo where p: "p = (a, ainfo)" by (cases p)
  show ?case
  proof (cases "a \<in> fst ` set A")
    case False
    with Cons.prems p show ?thesis by (auto dest: Cons.IH)
  next
    case True
    with Cons.prems p obtain m where m: "serve_metadata dinfo ainfo = Inr m"
      and rest: "join_replicas dinfo reps (set_serve a m A) = Inr A'"
      by (auto split: sum.splits)
    have "fst ` set (set_serve a m B) = fst ` set (set_serve a m A)"
      using Cons.prems(1) by (simp add: set_serve_def dom_map_entry)
    from Cons.IH [OF this rest] True Cons.prems(1) m p show ?thesis by simp
  qed
qed

lemma join_deployments_same_keys:
  assumes "fst ` set B = fst ` set A" and "join_deployments ds A = Inr A'"
  shows "\<exists>B'. join_deployments ds B = Inr B'"
  using assms
proof (induction ds arbitrary: A B A')
  case Nil
  then show ?case by simp
next
  case (Cons p ds)
  obtain k dinfo where p: "p = (k, dinfo)" by (cases p)
  from Cons.prems p obtain replicas reps A1 where
    r: "subscript dinfo ''actors'' = Inr replicas" "items replicas = Inr reps"
    and j1: "join_replicas dinfo reps A = Inr A1"
    and j2: "join_deployments ds A1 = Inr A'"
    by (auto split: sum.splits)
  from join_replicas_same_keys [OF Cons.prems(1) j1]
  obtain B1 where b1: "join_replicas dinfo reps B = Inr B1" by blast
  have "fst ` set B1 = fst ` set A1"
    using join_replicas_keys [OF j1] join_replicas_keys [OF b1] Cons.prems(1)
    by (metis list.set_map)
  from Cons.IH [OF this j2] b1 r p show ?case by simp
qed

text \<open>The loop of \<open>get_actor_info\<close>, with an environment that answers every call of
  \<open>get_serve_info\<close> alike.\<close>

lemma raw_actors_distinct:
  "distinct (map fst R) \<Longrightarrow> raw_actors E rows R = Inr R' \<Longrightarrow> distinct (map fst R')"
proof (induction rows arbitrary: R)
  case Nil
  then show ?case by simp
next
  case (Cons row rows)
  from Cons.prems(2) obtain entry where
    "raw_actors E rows (AList.update (hex (a_actor_id row)) entry R) = Inr R'"
    by (auto split: sum.splits)
  moreover have "distinct (map fst (AList.update (hex (a_actor_id row)) entry R))"
    using Cons.prems(1) by (rule distinct_update)
  ultimately show ?case using Cons.IH by blast
qed

lemma actor_loop_attach:
  assumes "get_serve_info E = Inr ds" and "distinct (map fst R)"
    and "actor_loop E rows (attach (serve_of ds) R) = (Inr A', calls)"
  shows "\<exists>R'. raw_actors E rows R = Inr R' \<and> A' = attach (serve_of ds) R'
           \<and> calls = replicate (length rows) GetServeInfo"
  using assms(2,3)
proof (induction rows arbitrary: R calls)
  case Nil
  then show ?case by simp
next
  case (Cons row rows)
  let ?F = "serve_of ds"
  let ?k = "hex (a_actor_id row)"
  from Cons.prems(2) obtain entry where entry: "actor_entry_of E row = Inr entry"
    by (auto split: sum.splits)
  let ?A1 = "AList.update ?k entry (attach ?F R)"
  from Cons.prems(2) entry assms(1) obtain A2 calls' where
    j: "join_deployments ds ?A1 = Inr A2"
    and rest: "actor_loop E rows A2 = (Inr A', calls')"
    and calls: "calls = GetServeInfo # calls'"
    by (auto simp: join_def Let_def split: sum.splits prod.splits)
  have d1: "distinct (map fst ?A1)"
    using Cons.prems(1) by (intro distinct_update) (simp add: attach_keys)
  have A2: "A2 = attach ?F (AList.update ?k entry R)"
    using join_deployments_attach [OF d1 j] by (simp add: attach_update)
  have d2: "distinct (map fst (AList.update ?k entry R))"
    using Cons.prems(1) by (rule distinct_update)
  from Cons.IH [OF d2 rest [unfolded A2]] entry calls show ?case by auto
qed

lemma get_actor_info_attach:
  assumes "get_all_actor_info E True 5 = Inr rows" and "get_serve_info E = Inr ds"
    and "get_actor_info E = (Inr A, calls)"
  shows "\<exists>R. raw_actors E rows [] = Inr R \<and> distinct (map fst R)
           \<and> A = attach (serve_of ds) R
           \<and> calls = GetAllActorInfo True 5 # replicate (length rows) GetServeInfo"
proof -
  from assms(1,3) obtain calls' where
    loop: "actor_loop E rows [] = (Inr A, calls')" and calls: "calls = GetAllActorInfo True 5 # calls'"
    by (auto simp: get_actor_info_def split: prod.splits)
  have "actor_loop E rows (attach (serve_of ds) []) = (Inr A, calls')"
    using loop by (simp add: attach_def)
  from actor_loop_attach [OF assms(2) _ this] obtain R where
    R: "raw_actors E rows [] = Inr R" "A = attach (serve_of ds) R"
       "calls' = replicate (length rows) GetServeInfo"
    by auto
  have "distinct (map fst R)" using raw_actors_distinct [OF _ R(1)] by simp
  with R calls show ?thesis by simp
qed

text \<open>What \<open>serve_of\<close> gives.\<close>

lemma serve_of_unreferenced: "a \<notin> referenced ds \<Longrightarrow> serve_of ds a = None"
proof (induction ds)
  case Nil
  show ?case by simp
next
  case (Cons p ds)
  obtain k dinfo where p: "p = (k, dinfo)" by (cases p)
  from Cons.prems have "a \<notin> referenced ds" and "a \<notin> fst ` set (replicas_of dinfo)"
    by (auto simp: referenced_def p)
  then have "map_of (rev (replicas_of dinfo)) a = None"
    by (simp add: map_of_eq_None_iff)
  with Cons.IH \<open>a \<notin> referenced ds\<close> show ?case
    by (simp add: p serve_of_replicas_def)
qed

lemma serve_of_Some:
  "serve_of ds a = Some m \<Longrightarrow>
   \<exists>k dinfo ainfo. (k, dinfo) \<in> set ds \<and> (a, ainfo) \<in> set (replicas_of dinfo)
      \<and> serve_metadata dinfo ainfo = Inr m"
proof (induction ds)
  case Nil
  then show ?case by simp
next
  case (Cons p ds)
  obtain k dinfo where p: "p = (k, dinfo)" by (cases p)
  show ?case
  proof (cases "serve_of ds a")
    case (Some m')
    with Cons p show ?thesis by (auto simp: p)
  next
    case None
    with Cons.prems p have "serve_of_replicas dinfo (replicas_of dinfo) a = Some m" by simp
    then obtain ainfo where "map_of (rev (replicas_of dinfo)) a = Some ainfo"
      and "serve_metadata dinfo ainfo = Inr m"
      by (auto simp: serve_of_replicas_def split: option.splits sum.splits)
    then have "(a, ainfo) \<in> set (replicas_of dinfo)" by (auto dest: map_of_SomeD)
    with \<open>serve_metadata dinfo ainfo = Inr m\<close> p show ?thesis by auto
  qed
qed

lemma serve_metadata_Inr:
  "serve_metadata dinfo ainfo = Inr m \<Longrightarrow>
   \<exists>t n v. subscript ainfo ''replica_tag'' = Inr t \<and> subscript dinfo ''name'' = Inr n
      \<and> subscript ainfo ''version'' = Inr v
      \<and> m = JDict [(''replica_tag'', t), (''deployment_name'', n), (''version'', v)]"
  by (auto simp: serve_metadata_def split: sum.splits)

lemma join_deployments_referenced:
  assumes "join_deployments ds A = Inr A'" and "a \<in> fst ` set A" and "a \<in> referenced ds"
  shows "\<exists>m. serve_of ds a = Some m"
  using assms
proof (induction ds arbitrary: A)
  case Nil
  then show ?case by (simp add: referenced_def)
next
  case (Cons p ds)
  obtain k dinfo where p: "p = (k, dinfo)" by (cases p)
  from Cons.prems(1) p obtain replicas reps A1 where
    r: "subscript dinfo ''actors'' = Inr replicas" "items replicas = Inr reps"
    and j1: "join_replicas dinfo reps A = Inr A1"
    and j2: "join_deployments ds A1 = Inr A'"
    by (auto split: sum.splits)
  have reps: "replicas_of dinfo = reps" using r by (simp add: replicas_of_def)
  have a1: "a \<in> fst ` set A1"
    using join_replicas_keys [OF j1] Cons.prems(2) by (metis list.set_map)
  show ?case
  proof (cases "a \<in> referenced ds")
    case True
    from Cons.IH [OF j2 a1 True] show ?thesis by (auto simp: p)
  next
    case False
    with Cons.prems(3) have "a \<in> fst ` set reps" by (auto simp: referenced_def p reps)
    then obtain x where x: "map_of (rev reps) a = Some x"
      by (metis map_of_eq_None_iff not_Some_eq set_rev)
    then have "(a, x) \<in> set reps" by (auto dest: map_of_SomeD)
    from join_replicas_ok [OF j1 this Cons.prems(2)] obtain m where
      "serve_metadata dinfo x = Inr m" by blast
    with x show ?thesis
      by (auto simp: p reps serve_of_replicas_def split: option.splits)
  qed
qed

lemma set_update_subset: "set (AList.update k v al) \<subseteq> insert (k, v) (set al)"
  by (induction al) auto

lemma raw_actors_metadata:
  assumes "raw_actors E rows R = Inr R'" and "\<forall>(a, r) \<in> set R. metadata r = []"
  shows "\<forall>(a, r) \<in> set R'. metadata r = []"
  using assms
proof (induction rows arbitrary: R)
  case Nil
  then show ?case by simp
next
  case (Cons row rows)
  from Cons.prems(1) obtain entry where entry: "actor_entry_of E row = Inr entry"
    and rest: "raw_actors E rows (AList.update (hex (a_actor_id row)) entry R) = Inr R'"
    by (auto split: sum.splits)
  from entry have "metadata entry = []"
    by (auto simp: actor_entry_of_def split: option.splits)
  with Cons.prems(2) set_update_subset [of "hex (a_actor_id row)" entry R]
  have "\<forall>(a, r) \<in> set (AList.update (hex (a_actor_id row)) entry R). metadata r = []"
    by auto
  from Cons.IH [OF rest this] show ?case .
qed

lemma raw_actors_keys:
  "raw_actors E rows R = Inr R' \<Longrightarrow> rows \<noteq> [] \<Longrightarrow> R' \<noteq> []"
proof (induction rows arbitrary: R)
  case Nil
  then show ?case by simp
next
  case (Cons row rows)
  from Cons.prems(1) obtain entry where
    rest: "raw_actors E rows (AList.update (hex (a_actor_id row)) entry R) = Inr R'"
    by (auto split: sum.splits)
  show ?case
  proof (cases "rows = []")
    case True
    with rest show ?thesis by auto
  next
    case False
    from Cons.IH [OF rest False] show ?thesis .
  qed
qed

text \<open>The last iteration of the loop joins a map that has every key of the result.\<close>

lemma actor_loop_last_join:
  assumes "get_serve_info E = Inr ds" and "distinct (map fst R)"
    and "actor_loop E rows (attach (serve_of ds) R) = (Inr A', calls)" and "rows \<noteq> []"
  shows "\<exists>B B'. map fst B = map fst A' \<and> join_deployments ds B = Inr B'"
  using assms(2,3,4)
proof (induction rows arbitrary: R calls)
  case Nil
  then show ?case by simp
next
  case (Cons row rows)
  let ?F = "serve_of ds"
  let ?k = "hex (a_actor_id row)"
  from Cons.prems(2) obtain entry where entry: "actor_entry_of E row = Inr entry"
    by (auto split: sum.splits)
  let ?A1 = "AList.update ?k entry (attach ?F R)"
  from Cons.prems(2) entry assms(1) obtain A2 calls' where
    j: "join_deployments ds ?A1 = Inr A2"
    and rest: "actor_loop E rows A2 = (Inr A', calls')"
    by (auto simp: join_def Let_def split: sum.splits prod.splits)
  have d1: "distinct (map fst ?A1)"
    using Cons.prems(1) by (intro distinct_update) (simp add: attach_keys)
  have A2: "A2 = attach ?F (AList.update ?k entry R)"
    using join_deployments_attach [OF d1 j] by (simp add: attach_update)
  have d2: "distinct (map fst (AList.update ?k entry R))"
    using Cons.prems(1) by (rule distinct_update)
  show ?case
  proof (cases "rows = []")
    case True
    with rest have "A' = A2" by simp
    with j join_deployments_keys [OF j] show ?thesis by auto
  next
    case False
    from Cons.IH [OF d2 rest [unfolded A2] False] show ?thesis .
  qed
qed

lemma attach_lookup:
  "map_of (attach f A) a
     = map_option (\<lambda>e. case f a of None \<Rightarrow> e
                        | Some m \<Rightarrow> e\<lparr>metadata := AList.update ''serve'' m (metadata e)\<rparr>)
         (map_of A a)"
  unfolding attach_def by (induction A) (auto split: option.splits)

text \<open>
  C10. When \<open>get_actor_info\<close> returns the actor map \<open>A\<close>, \<open>A\<close> has the keys of the actor
  map as fetched, in the same order, and every entry of \<open>A\<close> is the fetched entry but for
  its metadata: the metadata is empty for an actor that no deployment lists as a replica,
  and holds the one key \<open>serve\<close> for an actor that some deployment lists.
\<close>

theorem join_frame:
  assumes fetched: "get_all_actor_info E True 5 = Inr rows"
    and resolved: "get_serve_info E = Inr ds"
    and returned: "fst (get_actor_info E) = Inr A"
  shows "\<exists>R. raw_actors E rows [] = Inr R \<and> map fst A = map fst R
     \<and> (\<forall>a r. map_of R a = Some r \<longrightarrow>
          (\<exists>e. map_of A a = Some e \<and> e\<lparr>metadata := []\<rparr> = r
             \<and> (a \<notin> referenced ds \<longrightarrow> metadata e = [])
             \<and> (a \<in> referenced ds \<longrightarrow>
                  (\<exists>m. serve_of ds a = Some m \<and> metadata e = [(''serve'', m)]))))"
proof -
  obtain calls where g: "get_actor_info E = (Inr A, calls)"
    using returned by (cases "get_actor_info E") auto
  from get_actor_info_attach [OF fetched resolved g] obtain R where
    R: "raw_actors E rows [] = Inr R" "distinct (map fst R)" "A = attach (serve_of ds) R"
    by blast
  have md: "\<forall>(a, r) \<in> set R. metadata r = []"
    using raw_actors_metadata [OF R(1)] by simp
  have ref: "\<exists>m. serve_of ds a = Some m" if "a \<in> fst ` set R" "a \<in> referenced ds" for a
  proof -
    from that(1) R(1) have "rows \<noteq> []" by auto
    from fetched g obtain calls' where
      loop: "actor_loop E rows [] = (Inr A, calls')"
      by (auto simp: get_actor_info_def split: prod.splits)
    have "actor_loop E rows (attach (serve_of ds) []) = (Inr A, calls')"
      using loop by (simp add: attach_def)
    from actor_loop_last_join [OF resolved _ this \<open>rows \<noteq> []\<close>] obtain B B' where
      B: "map fst B = map fst A" "join_deployments ds B = Inr B'" by auto
    have "a \<in> fst ` set B"
      using B(1) that(1) R(3) by (metis attach_keys list.set_map)
    from join_deployments_referenced [OF B(2) this that(2)] show ?thesis .
  qed
  have "\<exists>e. map_of A a = Some e \<and> e\<lparr>metadata := []\<rparr> = r
             \<and> (a \<notin> referenced ds \<longrightarrow> metadata e = [])
             \<and> (a \<in> referenced ds \<longrightarrow>
                  (\<exists>m. serve_of ds a = Some m \<and> metadata e = [(''serve'', m)]))"
    if look: "map_of R a = Some r" for a r
  proof -
    from look have mem: "(a, r) \<in> set R" by (rule map_of_SomeD)
    with md have r0: "metadata r = []" by auto
    from mem have key: "a \<in> fst ` set R" by force
    show ?thesis
    proof (cases "a \<in> referenced ds")
      case False
      then have "serve_of ds a = None" by (rule serve_of_unreferenced)
      with look r0 False show ?thesis by (simp add: R(3) attach_lookup)
    next
      case True
      from ref [OF key True] obtain m where "serve_of ds a = Some m" by blast
      with look r0 True show ?thesis by (simp add: R(3) attach_lookup)
    qed
  qed
  with R(1) R(3) show ?thesis by (auto simp: attach_keys)
qed

text \<open>
  C6. The join, run on an actor map and a deployment mapping, leaves the deployment
  mapping as it is; run again on its own output, it returns that output unchanged.
\<close>

theorem join_idempotent:
  assumes "distinct (map fst A)" and "join (A, ds) = Inr (A', ds')"
  shows "ds' = ds \<and> join (A', ds') = Inr (A', ds')"
proof -
  from assms(2) have j: "join_deployments ds A = Inr A'" and ds: "ds' = ds"
    by (auto simp: join_def split: sum.splits)
  have A': "A' = attach (serve_of ds) A"
    by (rule join_deployments_attach [OF assms(1) j])
  have keys: "map fst A' = map fst A" by (simp add: A' attach_keys)
  then have "fst ` set A' = fst ` set A" by (metis list.set_map)
  from join_deployments_same_keys [OF this j] obtain A'' where
    j': "join_deployments ds A' = Inr A''" by blast
  have "distinct (map fst A')" using assms(1) keys by simp
  from join_deployments_attach [OF this j'] have "A'' = A'"
    by (simp add: A' attach_idem)
  with j' ds show ?thesis by (simp add: join_def)
qed

text \<open>\<open>get_actor_info\<close>, when it returns, has called \<open>get_serve_info\<close> once for every row
  of the actor table.\<close>

lemma resolver_calls:
  assumes "get_all_actor_info E True 5 = Inr rows" and "get_serve_info E = Inr ds"
    and "get_actor_info E = (Inr A, calls)"
  shows "calls = GetAllActorInfo True 5 # replicate (length rows) GetServeInfo"
  using get_actor_info_attach [OF assms] by blast

subsection \<open>Evaluations of \<open>get_actor_info\<close>\<close>

lemma svc_rows: "get_all_actor_info svc_env True 5 = Inr [actor_row ''a1'', actor_row ''b2'']"
  by (simp add: svc_env_def)

lemma svc_resolved: "get_serve_info svc_env = Inr svc_deployments"
  by code_simp

lemma svc_actor_info:
  "get_actor_info svc_env = (Inr svc_joined, [GetAllActorInfo True 5, GetServeInfo, GetServeInfo])"
  by code_simp

lemma no_rows_actor_info:
  "get_actor_info (env_of_store svc_store) = (Inr [], [GetAllActorInfo True 5])"
  by code_simp

text \<open>With the snapshot of the specification's example, whose deployment has no
  \<open>name\<close>, the join raises \<open>KeyError\<close>: the deployment name is read from the key
  \<open>name\<close> of the deployment's info, not from the key of the mapping.\<close>

lemma unnamed_actor_info:
  "get_actor_info ((env_of_store unnamed_store)
      \<lparr>get_all_actor_info := \<lambda>show_dead_jobs timeout. Inr [actor_row ''a1'']\<rparr>)
   = (Inl (KeyError ''name''), [GetAllActorInfo True 5, GetServeInfo])"
  by code_simp

lemma svc_join:
  "join ([(''6131'', raw_entry), (''6232'', raw_entry)], svc_deployments)
     = Inr (svc_joined, svc_deployments)"
  by code_simp

text \<open>
  C1. The claim has \<open>get_actor_info\<close> call the deployment snapshot resolver exactly once,
  after the actors are fetched. The call and the join stand inside the loop over the
  rows of the actor table: with two rows the resolver is called twice, with no row it is
  not called.
\<close>

theorem resolver_called_for_every_row:
  "get_all_actor_info svc_env True 5 = Inr [actor_row ''a1'', actor_row ''b2'']
   \<and> snd (get_actor_info svc_env) = [GetAllActorInfo True 5, GetServeInfo, GetServeInfo]
   \<and> get_all_actor_info (env_of_store svc_store) True 5 = Inr []
   \<and> snd (get_actor_info (env_of_store svc_store)) = [GetAllActorInfo True 5]"
  by (simp add: svc_rows svc_actor_info no_rows_actor_info) (simp add: env_of_store_def)

theorem join_idempotent_witness:
  "distinct (map fst [(''6131'', raw_entry), (''6232'', raw_entry)])
   \<and> join ([(''6131'', raw_entry), (''6232'', raw_entry)], svc_deployments)
       = Inr (svc_joined, svc_deployments)
   \<and> join (svc_joined, svc_deployments) = Inr (svc_joined, svc_deployments)"
proof -
  have d: "distinct (map fst [(''6131'', raw_entry), (''6232'', raw_entry)])" by simp
  from join_idempotent [OF d svc_join] d svc_join show ?thesis by simp
qed

theorem join_frame_witness:
  "get_all_actor_info svc_env True 5 = Inr [actor_row ''a1'', actor_row ''b2'']
   \<and> get_serve_info svc_env = Inr svc_deployments
   \<and> fst (get_actor_info svc_env) = Inr svc_joined
   \<and> (\<exists>R. raw_actors svc_env [actor_row ''a1'', actor_row ''b2''] [] = Inr R
         \<and> map fst svc_joined = map fst R
         \<and> (\<forall>a r. map_of R a = Some r \<longrightarrow>
              (\<exists>e. map_of svc_joined a = Some e \<and> e\<lparr>metadata := []\<rparr> = r
                 \<and> (a \<notin> referenced svc_deployments \<longrightarrow> metadata e = [])
                 \<and> (a \<in> referenced svc_deployments \<longrightarrow>
                      (\<exists>m. serve_of svc_deployments a = Some m
                          \<and> metadata e = [(''serve'', m)])))))"
proof -
  have r: "fst (get_actor_info svc_env) = Inr svc_joined" by (simp add: svc_actor_info)
  from join_frame [OF svc_rows svc_resolved r] svc_rows svc_resolved r
  show ?thesis by blast
qed

subsection \<open>The snapshot request\<close>

lemma failure_iff: "e \<in> set (failure r) \<longleftrightarrow> r = Inl e"
  by (cases r) (auto simp: failure_def)

lemma raised_iff:
  "e \<in> set (raised E) \<longleftrightarrow>
     get_job_info E = Inl e \<or> get_job_submission_info E = Inl e
     \<or> fst (get_actor_info E) = Inl e \<or> get_serve_info E = Inl e
     \<or> get_session_name E = Inl e"
  by (simp add: raised_def failure_iff)

lemma snapshot_raises:
  assumes "e \<in> set (raised E)"
  shows "snapshot E = map Inl (raised E)"
  using assms unfolding raised_iff snapshot_def
  by (auto split: sum.splits)

lemma snapshot_returns:
  assumes "raised E = []"
  shows "\<exists>p. snapshot E = [Inr \<lparr>success = True, message = ''hello'', snapshot_of = p\<rparr>]"
proof -
  have none: "\<And>e. e \<notin> set (raised E)" using assms by simp
  obtain a where a: "get_job_info E = Inr a"
    using none [unfolded raised_iff] by (cases "get_job_info E") auto
  obtain b where b: "get_job_submission_info E = Inr b"
    using none [unfolded raised_iff] by (cases "get_job_submission_info E") auto
  obtain c where c: "fst (get_actor_info E) = Inr c"
    using none [unfolded raised_iff] by (cases "fst (get_actor_info E)") auto
  obtain d where d: "get_serve_info E = Inr d"
    using none [unfolded raised_iff] by (cases "get_serve_info E") auto
  obtain n where n: "get_session_name E = Inr n"
    using none [unfolded raised_iff] by (cases "get_session_name E") auto
  show ?thesis by (simp add: snapshot_def a b c d n)
qed

text \<open>
  C3. When the job fetch, the job-submission fetch, the actor fetch or the session-name
  fetch raises \<open>e\<close>, the request can fail with \<open>e\<close>; every outcome of the request is
  an exception raised by one of the fetches, never a payload; and when \<open>e\<close> is the only
  exception raised, failing with \<open>e\<close> is the only outcome.
\<close>

theorem snapshot_fails_as_a_whole:
  assumes "get_job_info E = Inl e \<or> get_job_submission_info E = Inl e
           \<or> fst (get_actor_info E) = Inl e \<or> get_session_name E = Inl e"
  shows "Inl e \<in> set (snapshot E)
     \<and> (\<forall>r \<in> set (snapshot E). \<exists>e'. r = Inl e' \<and> e' \<in> set (raised E))
     \<and> (set (raised E) = {e} \<longrightarrow> set (snapshot E) = {Inl e})"
proof -
  from assms have e: "e \<in> set (raised E)" by (auto simp: raised_iff)
  from snapshot_raises [OF e] e show ?thesis by auto
qed

lemma no_session_raised: "raised no_session_env = [AttributeError]" by code_simp

theorem snapshot_fails_as_a_whole_witness:
  "get_session_name no_session_env = Inl AttributeError
   \<and> set (snapshot no_session_env) = {Inl AttributeError}"
proof -
  have h: "get_session_name no_session_env = Inl AttributeError" by code_simp
  then have "get_job_info no_session_env = Inl AttributeError
      \<or> get_job_submission_info no_session_env = Inl AttributeError
      \<or> fst (get_actor_info no_session_env) = Inl AttributeError
      \<or> get_session_name no_session_env = Inl AttributeError" by (rule disjI2 [OF disjI2 [OF disjI2]])
  from snapshot_fails_as_a_whole [OF this]
  have only: "set (raised no_session_env) = {AttributeError}
      \<longrightarrow> set (snapshot no_session_env) = {Inl AttributeError}" by (rule conjunct2 [THEN conjunct2])
  have "set (raised no_session_env) = {AttributeError}"
    unfolding no_session_raised by simp
  with only h show ?thesis by (simp only: simp_thms)
qed

end
